theory Spec2Isabelle
  imports Main
begin

text \<open>
  A model of the booking and payment views of \<^verbatim>\<open>listings/views.py\<close> and of the URL
  configuration of \<^verbatim>\<open>listings/urls.py\<close>. The database, the task queue and the payment
  gateway are explicit: a view takes the world it runs in and returns its answer with
  the world it leaves.
\<close>

section \<open>Values exchanged with the payment gateway\<close>

text \<open>
  The body of a gateway reply is whatever \<^verbatim>\<open>response.json()\<close> parses. A parsed
  object is kept as the list of its bindings; \<open>dict_get\<close> is Python's \<^verbatim>\<open>d.get(k)\<close>,
  which answers \<^verbatim>\<open>None\<close> for a missing key.
\<close>

datatype json =
    JNull
  | JBool bool
  | JNum int
  | JStr string
  | JArr "json list"
  | JObj "(string \<times> json) list"

definition dict_get :: "(string \<times> json) list \<Rightarrow> string \<Rightarrow> json" where
  "dict_get d k = (case map_of d k of None \<Rightarrow> JNull | Some v \<Rightarrow> v)"

text \<open>Python truthiness, as \<^verbatim>\<open>not payment.transaction_id\<close> reads it.\<close>

fun truthy :: "json \<Rightarrow> bool" where
  "truthy JNull = False"
| "truthy (JBool b) = b"
| "truthy (JNum n) = (n \<noteq> 0)"
| "truthy (JStr s) = (s \<noteq> [])"
| "truthy (JArr xs) = (xs \<noteq> [])"
| "truthy (JObj kvs) = (kvs \<noteq> [])"

text \<open>
  Exceptions that leave a view. \<open>Http404\<close> is what \<^verbatim>\<open>get_object\<close> raises for an
  unknown primary key, and \<open>ValidationError\<close> what a serializer raises for data it
  refuses; the others are not caught by any handler of \<^verbatim>\<open>views.py\<close>.
\<close>

datatype exn =
    Http404
  | AttributeError
  | AssertionError
  | KeyError string
  | DoesNotExist
  | MultipleObjectsReturned
  | ValidationError

record response =
  status_code :: nat
  data :: "(string \<times> json) list"

definition HTTP_400_BAD_REQUEST :: nat where
  "HTTP_400_BAD_REQUEST = 400"

definition HTTP_503_SERVICE_UNAVAILABLE :: nat where
  "HTTP_503_SERVICE_UNAVAILABLE = 503"

text \<open>\<^verbatim>\<open>Response(data)\<close> without a status is a 200.\<close>

definition Response :: "(string \<times> json) list \<Rightarrow> nat \<Rightarrow> response" where
  "Response d st = \<lparr>status_code = st, data = d\<rparr>"

definition Response_ok :: "(string \<times> json) list \<Rightarrow> response" where
  "Response_ok d = Response d 200"

text \<open>
  One HTTP exchange with the gateway. \<open>RequestException\<close> stands for any
  \<^verbatim>\<open>requests.exceptions.RequestException\<close> raised inside the \<^verbatim>\<open>try\<close> block (by the
  call or by \<^verbatim>\<open>response.json()\<close>), carrying \<^verbatim>\<open>str(e)\<close>; \<open>Reply\<close> carries
  \<^verbatim>\<open>response.status_code\<close> and the parsed body.
\<close>

datatype http_request =
    POST string "(string \<times> string) list" "(string \<times> string) list"
  | GET string "(string \<times> string) list"

datatype gateway_result =
    RequestException string
  | Reply nat json

section \<open>The records of the domain\<close>

text \<open>
  Decimal amounts, dates and the UUID reference are kept as the text \<^verbatim>\<open>str()\<close>
  prints for them, since the views only ever format them. A booking row carries the
  user and the listing it refers to: the views only read them.
\<close>

record user =
  email :: string
  first_name :: string
  last_name :: string

record listing =
  title :: string

record booking =
  booking_id :: nat
  user :: user
  listing :: listing
  check_in_date :: string
  check_out_date :: string
  total_price :: string
  booking_status :: string

record payment =
  payment_id :: nat
  booking_fk :: nat
  amount :: string
  currency :: string
  reference :: string
  transaction_id :: json
  payment_url :: json
  payment_status :: string

record email_job =
  job_booking_id :: nat
  job_user_email :: string
  job_listing_title :: string

text \<open>
  The world a request runs in: the two tables (rows in insertion order, primary keys
  handed out by a counter), the queue of the email task, and the requests sent to the
  gateway so far.
\<close>

record world =
  bookings :: "booking list"
  payments :: "payment list"
  email_queue :: "email_job list"
  gateway_calls :: "http_request list"
  next_booking_id :: nat
  next_payment_id :: nat

text \<open>
  The process environment and the remote service: \<^verbatim>\<open>CHAPA_SECRET_KEY\<close> is
  \<^verbatim>\<open>os.getenv(...)\<close>, so it may be \<^verbatim>\<open>None\<close>; \<open>chapa\<close> answers one request.
\<close>

record env =
  CHAPA_SECRET_KEY :: "string option"
  chapa :: "http_request \<Rightarrow> gateway_result"

definition CHAPA_API_URL :: string where
  "CHAPA_API_URL = ''https://api.chapa.co/v1''"

text \<open>
  A view set instance. The router's dispatch stores the URL keyword arguments in
  \<^verbatim>\<open>self.kwargs\<close>; an instance built by hand has no such attribute.
\<close>

record viewset =
  kwargs :: "(string \<times> nat) list option"

record request =
  absolute_root :: string

section \<open>Formatting\<close>

definition digit_char :: "nat \<Rightarrow> char" where
  "digit_char n = char_of (48 + n)"

fun str_nat :: "nat \<Rightarrow> string" where
  "str_nat n = (if n < 10 then [digit_char n] else str_nat (n div 10) @ [digit_char (n mod 10)])"

declare str_nat.simps [simp del]

definition str_opt :: "string option \<Rightarrow> string" where
  "str_opt v = (case v of None \<Rightarrow> ''None'' | Some s \<Rightarrow> s)"

definition rstrip :: "char \<Rightarrow> string \<Rightarrow> string" where
  "rstrip c s = rev (dropWhile (\<lambda>x. x = c) (rev s))"

definition headers :: "env \<Rightarrow> (string \<times> string) list" where
  "headers e =
     [(''Authorization'', ''Bearer '' @ str_opt (CHAPA_SECRET_KEY e)),
      (''Content-Type'', ''application/json'')]"

section \<open>The object-relational layer, as the views use it\<close>

definition find_payment :: "nat \<Rightarrow> world \<Rightarrow> payment option" where
  "find_payment pk w = find (\<lambda>p. payment_id p = pk) (payments w)"

definition find_booking :: "nat \<Rightarrow> world \<Rightarrow> booking option" where
  "find_booking pk w = find (\<lambda>b. booking_id b = pk) (bookings w)"

text \<open>
  \<^verbatim>\<open>self.get_object()\<close>: reads \<^verbatim>\<open>self.kwargs\<close> (an \<^verbatim>\<open>AttributeError\<close> when the
  instance has none), asserts that the lookup keyword is there, and fetches the row or
  raises \<^verbatim>\<open>Http404\<close>.
\<close>

definition get_object :: "viewset \<Rightarrow> (nat \<Rightarrow> world \<Rightarrow> 'a option) \<Rightarrow> world \<Rightarrow> exn + 'a" where
  "get_object self lookup w =
     (case kwargs self of
        None \<Rightarrow> Inl AttributeError
      | Some kw \<Rightarrow>
          (case map_of kw ''pk'' of
             None \<Rightarrow> Inl AssertionError
           | Some pk \<Rightarrow>
               (case lookup pk w of None \<Rightarrow> Inl Http404 | Some obj \<Rightarrow> Inr obj)))"

text \<open>\<^verbatim>\<open>payment.booking\<close>: the row the foreign key names.\<close>

definition payment_booking :: "payment \<Rightarrow> world \<Rightarrow> exn + booking" where
  "payment_booking p w =
     (case find_booking (booking_fk p) w of None \<Rightarrow> Inl DoesNotExist | Some b \<Rightarrow> Inr b)"

text \<open>\<^verbatim>\<open>obj.save()\<close>: the row with the object's primary key takes the object's fields.\<close>

definition payment_save :: "payment \<Rightarrow> world \<Rightarrow> world" where
  "payment_save p w =
     w\<lparr>payments := map (\<lambda>r. if payment_id r = payment_id p then p else r) (payments w)\<rparr>"

definition booking_save :: "booking \<Rightarrow> world \<Rightarrow> world" where
  "booking_save b w =
     w\<lparr>bookings := map (\<lambda>r. if booking_id r = booking_id b then b else r) (bookings w)\<rparr>"

text \<open>
  Modelled from the spec: the field defaults of the Payment model (\<^verbatim>\<open>models.py\<close> is
  not among the sources). A new Payment is \<^verbatim>\<open>pending\<close>, its transaction identifier
  and checkout URL are absent, and its reference token \<open>ref\<close> is generated for it.
  \<^verbatim>\<open>Payment.objects.create(booking=..., amount=..., currency=...)\<close> inserts the row.
\<close>

definition Payment_objects_create ::
  "booking \<Rightarrow> string \<Rightarrow> string \<Rightarrow> string \<Rightarrow> world \<Rightarrow> payment \<times> world" where
  "Payment_objects_create b amt cur ref w =
     (let p = \<lparr>payment_id = next_payment_id w, booking_fk = booking_id b, amount = amt,
                currency = cur, reference = ref, transaction_id = JNull,
                payment_url = JNull, payment_status = ''pending''\<rparr>
      in (p, w\<lparr>payments := payments w @ [p], next_payment_id := Suc (next_payment_id w)\<rparr>))"

text \<open>
  \<^verbatim>\<open>Payment.objects.get(booking=booking, status='pending')\<close>: the one matching row,
  \<^verbatim>\<open>DoesNotExist\<close> when there is none, \<^verbatim>\<open>MultipleObjectsReturned\<close> when there are
  several.
\<close>

definition pending_payments :: "nat \<Rightarrow> world \<Rightarrow> payment list" where
  "pending_payments bid w =
     filter (\<lambda>p. booking_fk p = bid \<and> payment_status p = ''pending'') (payments w)"

definition Payment_objects_get :: "booking \<Rightarrow> world \<Rightarrow> exn + payment" where
  "Payment_objects_get b w =
     (case pending_payments (booking_id b) w of
        [] \<Rightarrow> Inl DoesNotExist
      | [p] \<Rightarrow> Inr p
      | _ \<Rightarrow> Inl MultipleObjectsReturned)"

text \<open>
  Modelled from the spec: \<^verbatim>\<open>serializer.save()\<close> of the Booking serializer
  (\<^verbatim>\<open>serializers.py\<close> and \<^verbatim>\<open>models.py\<close> are not among the sources). It persists a
  new Booking with status \<^verbatim>\<open>pending\<close> from the validated data, which already hold
  the total price.
\<close>

record serializer =
  validated_user :: user
  validated_listing :: listing
  validated_check_in :: string
  validated_check_out :: string
  validated_total_price :: string

definition serializer_save :: "serializer \<Rightarrow> world \<Rightarrow> booking \<times> world" where
  "serializer_save s w =
     (let b = \<lparr>booking_id = next_booking_id w, user = validated_user s,
                listing = validated_listing s, check_in_date = validated_check_in s,
                check_out_date = validated_check_out s,
                total_price = validated_total_price s, booking_status = ''pending''\<rparr>
      in (b, w\<lparr>bookings := bookings w @ [b], next_booking_id := Suc (next_booking_id w)\<rparr>))"

text \<open>
  \<^verbatim>\<open>send_booking_confirmation_email.delay(...)\<close>: the job is appended to the queue
  of the task broker.
\<close>

definition send_booking_confirmation_email_delay ::
  "nat \<Rightarrow> string \<Rightarrow> string \<Rightarrow> world \<Rightarrow> world" where
  "send_booking_confirmation_email_delay bid mail ttl w =
     w\<lparr>email_queue := email_queue w @
        [\<lparr>job_booking_id = bid, job_user_email = mail, job_listing_title = ttl\<rparr>]\<rparr>"

text \<open>Sending a request: it is recorded, and the gateway of the environment answers.\<close>

definition send :: "env \<Rightarrow> http_request \<Rightarrow> world \<Rightarrow> gateway_result \<times> world" where
  "send e rq w = (chapa e rq, w\<lparr>gateway_calls := gateway_calls w @ [rq]\<rparr>)"

section \<open>The views\<close>

subsection \<open>BookingViewSet.perform_create\<close>

definition perform_create :: "serializer \<Rightarrow> string \<Rightarrow> world \<Rightarrow> booking \<times> world" where
  "perform_create s ref w =
     (let (booking, w1) = serializer_save s w;
          (payment, w2) = Payment_objects_create booking (total_price booking) ''ETB'' ref w1;
          w3 = send_booking_confirmation_email_delay (booking_id booking)
                 (email (user booking)) (title (listing booking)) w2
      in (booking, w3))"

subsection \<open>PaymentViewSet.initiate_payment\<close>

definition callback_url :: "request \<Rightarrow> payment \<Rightarrow> string" where
  "callback_url rq p =
     rstrip CHR ''/'' (absolute_root rq) @ ''/api/payments/'' @ str_nat (payment_id p) @ ''/verify/''"

definition return_url :: "request \<Rightarrow> booking \<Rightarrow> string" where
  "return_url rq b =
     rstrip CHR ''/'' (absolute_root rq) @ ''/bookings/'' @ str_nat (booking_id b) @ ''/''"

definition payload :: "request \<Rightarrow> payment \<Rightarrow> booking \<Rightarrow> (string \<times> string) list" where
  "payload rq p b =
     [(''amount'', amount p),
      (''currency'', currency p),
      (''email'', email (user b)),
      (''first_name'', first_name (user b)),
      (''last_name'', last_name (user b)),
      (''tx_ref'', reference p),
      (''callback_url'', callback_url rq p),
      (''return_url'', return_url rq b),
      (''customization[title]'', ''Booking Payment for '' @ title (listing b)),
      (''customization[description]'',
         ''Payment for booking from '' @ check_in_date b @ '' to '' @ check_out_date b)]"

text \<open>
  The success branch reads \<^verbatim>\<open>response_data['data'].get(...)\<close>: a \<^verbatim>\<open>KeyError\<close> when
  the body has no \<^verbatim>\<open>data\<close>, an \<^verbatim>\<open>AttributeError\<close> when \<^verbatim>\<open>data\<close> is not an object.
  Neither is a \<^verbatim>\<open>RequestException\<close>, so both leave the view.
\<close>

definition initiate_success ::
  "payment \<Rightarrow> (string \<times> json) list \<Rightarrow> world \<Rightarrow> (exn + response) \<times> world" where
  "initiate_success p d w =
     (case map_of d ''data'' of
        None \<Rightarrow> (Inl (KeyError ''data''), w)
      | Some (JObj dd) \<Rightarrow>
          (let p1 = p\<lparr>transaction_id := dict_get dd ''transaction_id''\<rparr>;
               p2 = p1\<lparr>payment_url := dict_get dd ''checkout_url''\<rparr>;
               w1 = payment_save p2 w
           in (Inr (Response_ok
                     [(''status'', JStr ''success''),
                      (''message'', JStr ''Payment initiated successfully''),
                      (''payment_url'', payment_url p2)]), w1))
      | Some _ \<Rightarrow> (Inl AttributeError, w))"

definition initiate_failure :: "json \<Rightarrow> response" where
  "initiate_failure response_data =
     Response [(''status'', JStr ''error''),
               (''message'', JStr ''Failed to initiate payment''),
               (''details'', response_data)] HTTP_400_BAD_REQUEST"

text \<open>
  The parameter \<open>pk\<close> is the keyword argument of the action; the body never reads it.
  In \<^verbatim>\<open>status_code == 200 and response_data.get('status') == 'success'\<close> the second
  test runs only after the first holds, and raises \<^verbatim>\<open>AttributeError\<close> on a body
  that is not an object.
\<close>

definition PaymentViewSet_initiate_payment ::
  "viewset \<Rightarrow> request \<Rightarrow> nat option \<Rightarrow> env \<Rightarrow> world \<Rightarrow> (exn + response) \<times> world" where
  "PaymentViewSet_initiate_payment self rq pk e w =
     (case get_object self find_payment w of
        Inl x \<Rightarrow> (Inl x, w)
      | Inr p \<Rightarrow>
          (case payment_booking p w of
             Inl x \<Rightarrow> (Inl x, w)
           | Inr b \<Rightarrow>
               (let (res, w1) = send e (POST (CHAPA_API_URL @ ''/transaction/initialize'')
                                          (headers e) (payload rq p b)) w
                in case res of
                     RequestException msg \<Rightarrow>
                       (Inr (Response [(''status'', JStr ''error''),
                                       (''message'', JStr ''Failed to connect to payment service''),
                                       (''details'', JStr msg)] HTTP_503_SERVICE_UNAVAILABLE), w1)
                   | Reply code response_data \<Rightarrow>
                       if code = 200 then
                         (case response_data of
                            JObj d \<Rightarrow>
                              if dict_get d ''status'' = JStr ''success''
                              then initiate_success p d w1
                              else (Inr (initiate_failure response_data), w1)
                          | _ \<Rightarrow> (Inl AttributeError, w1))
                       else (Inr (initiate_failure response_data), w1))))"

subsection \<open>PaymentViewSet.verify_payment\<close>

definition verify_success :: "payment \<Rightarrow> world \<Rightarrow> (exn + response) \<times> world" where
  "verify_success p w =
     (let p1 = p\<lparr>payment_status := ''completed''\<rparr>;
          w1 = payment_save p1 w
      in case payment_booking p1 w1 of
           Inl x \<Rightarrow> (Inl x, w1)
         | Inr b \<Rightarrow>
             (let b1 = b\<lparr>booking_status := ''confirmed''\<rparr>;
                  w2 = booking_save b1 w1;
                  w3 = send_booking_confirmation_email_delay (booking_id b1)
                         (email (user b1)) (title (listing b1)) w2
              in (Inr (Response_ok [(''status'', JStr ''success''),
                                    (''message'', JStr ''Payment verified successfully'')]), w3)))"

definition verify_failure :: "payment \<Rightarrow> json \<Rightarrow> world \<Rightarrow> (exn + response) \<times> world" where
  "verify_failure p response_data w =
     (let p1 = p\<lparr>payment_status := ''failed''\<rparr>;
          w1 = payment_save p1 w
      in (Inr (Response [(''status'', JStr ''error''),
                         (''message'', JStr ''Payment verification failed''),
                         (''details'', response_data)] HTTP_400_BAD_REQUEST), w1))"

text \<open>
  The transaction identifier is formatted into the URL by an f-string; \<open>str_json\<close>
  gives the text for the values a Payment can hold from a reply of the documented
  shape (a string), and a fixed placeholder otherwise.
\<close>

definition str_json :: "json \<Rightarrow> string" where
  "str_json v = (case v of JStr s \<Rightarrow> s | JNull \<Rightarrow> ''None'' | _ \<Rightarrow> ''?'')"

definition PaymentViewSet_verify_payment ::
  "viewset \<Rightarrow> request \<Rightarrow> nat option \<Rightarrow> env \<Rightarrow> world \<Rightarrow> (exn + response) \<times> world" where
  "PaymentViewSet_verify_payment self rq pk e w =
     (case get_object self find_payment w of
        Inl x \<Rightarrow> (Inl x, w)
      | Inr p \<Rightarrow>
          if \<not> truthy (transaction_id p) then
            (Inr (Response [(''status'', JStr ''error''),
                            (''message'', JStr ''No transaction ID found for this payment'')]
                    HTTP_400_BAD_REQUEST), w)
          else
            (let (res, w1) = send e (GET (CHAPA_API_URL @ ''/transaction/verify/''
                                            @ str_json (transaction_id p)) (headers e)) w
             in case res of
                  RequestException msg \<Rightarrow>
                    (Inr (Response [(''status'', JStr ''error''),
                                    (''message'', JStr ''Failed to verify payment''),
                                    (''details'', JStr msg)] HTTP_503_SERVICE_UNAVAILABLE), w1)
                | Reply code response_data \<Rightarrow>
                    if code = 200 then
                      (case response_data of
                         JObj d \<Rightarrow>
                           if dict_get d ''status'' = JStr ''success''
                           then verify_success p w1
                           else verify_failure p response_data w1
                       | _ \<Rightarrow> (Inl AttributeError, w1))
                    else verify_failure p response_data w1))"

subsection \<open>BookingViewSet.initiate_payment\<close>

text \<open>
  The pending Payment of the booking is looked up, and created only on
  \<^verbatim>\<open>DoesNotExist\<close>; any other exception of the lookup leaves the view. The call is
  then handed to a \<^verbatim>\<open>PaymentViewSet()\<close> built on the spot, which is given the request
  and \<^verbatim>\<open>format_kwarg\<close> but no \<^verbatim>\<open>kwargs\<close>.
\<close>

definition get_or_create_pending :: "booking \<Rightarrow> string \<Rightarrow> world \<Rightarrow> exn + payment \<times> world" where
  "get_or_create_pending b ref w =
     (case Payment_objects_get b w of
        Inr p \<Rightarrow> Inr (p, w)
      | Inl x \<Rightarrow>
          if x = DoesNotExist
          then Inr (Payment_objects_create b (total_price b) ''ETB'' ref w)
          else Inl x)"

definition BookingViewSet_initiate_payment ::
  "viewset \<Rightarrow> request \<Rightarrow> nat option \<Rightarrow> string \<Rightarrow> env \<Rightarrow> world \<Rightarrow> (exn + response) \<times> world" where
  "BookingViewSet_initiate_payment self rq pk ref e w =
     (case get_object self find_booking w of
        Inl x \<Rightarrow> (Inl x, w)
      | Inr b \<Rightarrow>
          (case get_or_create_pending b ref w of
             Inl x \<Rightarrow> (Inl x, w)
           | Inr (p, w1) \<Rightarrow>
               (let payment_viewset = \<lparr>kwargs = None\<rparr>
                in PaymentViewSet_initiate_payment payment_viewset rq (Some (payment_id p)) e w1)))"

subsection \<open>PaymentViewSet.create, inherited\<close>

text \<open>
  Modelled from the spec: the create handler that \<^verbatim>\<open>PaymentViewSet\<close> inherits from
  \<^verbatim>\<open>ModelViewSet\<close> (the framework and \<^verbatim>\<open>serializers.py\<close> are not among the
  sources). The spec gives the payment resource the standard create semantics with no
  domain logic: the data name a Booking, an amount and a currency, a Booking that does
  not exist is refused, and otherwise a Payment row with the defaults of the model is
  inserted. Nothing is looked up before the insert.
\<close>

record payment_form =
  form_booking :: nat
  form_amount :: string
  form_currency :: string

definition PaymentViewSet_create :: "payment_form \<Rightarrow> string \<Rightarrow> world \<Rightarrow> (exn + payment) \<times> world" where
  "PaymentViewSet_create f ref w =
     (case find_booking (form_booking f) w of
        None \<Rightarrow> (Inl ValidationError, w)
      | Some b \<Rightarrow>
          (let (p, w1) = Payment_objects_create b (form_amount f) (form_currency f) ref w
           in (Inr p, w1)))"

section \<open>The operations defined in views.py\<close>

text \<open>
  For a detail route the dispatch stores the primary key of the URL in
  \<^verbatim>\<open>self.kwargs\<close> and passes it to the action as \<^verbatim>\<open>pk\<close>.
\<close>

definition routed :: "nat \<Rightarrow> viewset" where
  "routed pk = \<lparr>kwargs = Some [(''pk'', pk)]\<rparr>"

text \<open>
  The operations that \<^verbatim>\<open>views.py\<close> itself defines: the creation hook of a booking
  and the three actions. Each runs against the gateway of its own environment; a
  reference token is supplied to the two operations that may create a Payment.

  The handlers that the three view sets inherit from \<^verbatim>\<open>ModelViewSet\<close> (list,
  retrieve, create, update, partial update, destroy) are not among them: their code is
  the framework's and the serializers', and neither is among the sources. Nothing that
  is proved of every \<open>defined_operation\<close> speaks for them. The inherited create of
  \<^verbatim>\<open>PaymentViewSet\<close> is modelled on its own, further down.
\<close>

datatype defined_operation =
    Create_booking serializer string
  | Booking_initiate_payment nat request string
  | Payment_initiate_payment nat request
  | Payment_verify_payment nat request

fun run_defined :: "env \<Rightarrow> defined_operation \<Rightarrow> world \<Rightarrow> world" where
  "run_defined e (Create_booking s ref) w = snd (perform_create s ref w)"
| "run_defined e (Booking_initiate_payment pk rq ref) w =
     snd (BookingViewSet_initiate_payment (routed pk) rq (Some pk) ref e w)"
| "run_defined e (Payment_initiate_payment pk rq) w =
     snd (PaymentViewSet_initiate_payment (routed pk) rq (Some pk) e w)"
| "run_defined e (Payment_verify_payment pk rq) w =
     snd (PaymentViewSet_verify_payment (routed pk) rq (Some pk) e w)"

fun is_verify :: "defined_operation \<Rightarrow> bool" where
  "is_verify (Payment_verify_payment pk rq) = True"
| "is_verify _ = False"

section \<open>Invariants of the tables\<close>

text \<open>
  What the database grants: primary keys of payments are unique and below the counter,
  and every booking key in use (in a booking row or in a payment's foreign key) has
  been handed out already.
\<close>

definition keys_ok :: "world \<Rightarrow> bool" where
  "keys_ok w =
     (distinct (map payment_id (payments w))
      \<and> list_all (\<lambda>p. payment_id p < next_payment_id w) (payments w)
      \<and> list_all (\<lambda>b. booking_id b < next_booking_id w) (bookings w)
      \<and> list_all (\<lambda>p. booking_fk p < next_booking_id w) (payments w))"

text \<open>At most one pending Payment per Booking.\<close>

definition one_pending :: "world \<Rightarrow> bool" where
  "one_pending w =
     list_all (\<lambda>p. length (pending_payments (booking_fk p) w) \<le> 1) (payments w)"

definition terminal :: "string \<Rightarrow> bool" where
  "terminal st = (st = ''completed'' \<or> st = ''failed'')"

section \<open>A small world to run the views in\<close>

definition abebe :: user where
  "abebe = \<lparr>email = ''abebe@example.com'', first_name = ''Abebe'', last_name = ''Bikila''\<rparr>"

definition lodge :: listing where
  "lodge = \<lparr>title = ''Lalibela Lodge''\<rparr>"

definition booking1 :: booking where
  "booking1 = \<lparr>booking_id = 1, user = abebe, listing = lodge,
                check_in_date = ''2024-06-01'', check_out_date = ''2024-06-05'',
                total_price = ''400.00'', booking_status = ''pending''\<rparr>"

definition payment1 :: payment where
  "payment1 = \<lparr>payment_id = 1, booking_fk = 1, amount = ''400.00'', currency = ''ETB'',
                reference = ''ref-1'', transaction_id = JNull, payment_url = JNull,
                payment_status = ''pending''\<rparr>"

definition payment1_initiated :: payment where
  "payment1_initiated = payment1\<lparr>transaction_id := JStr ''tx_123'',
                                  payment_url := JStr ''https://pay.example/tx_123''\<rparr>"

definition world_of :: "payment \<Rightarrow> world" where
  "world_of p = \<lparr>bookings = [booking1], payments = [p], email_queue = [],
                  gateway_calls = [], next_booking_id = 2, next_payment_id = 2\<rparr>"

definition answering :: "gateway_result \<Rightarrow> env" where
  "answering r = \<lparr>CHAPA_SECRET_KEY = Some ''secret'', chapa = (\<lambda>rq. r)\<rparr>"

definition local_request :: request where
  "local_request = \<lparr>absolute_root = ''http://localhost:8000/''\<rparr>"

definition booking_form :: serializer where
  "booking_form = \<lparr>validated_user = abebe, validated_listing = lodge,
                    validated_check_in = ''2024-06-01'', validated_check_out = ''2024-06-05'',
                    validated_total_price = ''400.00''\<rparr>"

definition empty_world :: world where
  "empty_world = \<lparr>bookings = [], payments = [], email_queue = [], gateway_calls = [],
                   next_booking_id = 1, next_payment_id = 1\<rparr>"

definition payment1_completed :: payment where
  "payment1_completed = payment1_initiated\<lparr>payment_status := ''completed''\<rparr>"

definition payment1_failed :: payment where
  "payment1_failed = payment1_initiated\<lparr>payment_status := ''failed''\<rparr>"

section \<open>The URL configuration\<close>

text \<open>
  \<^verbatim>\<open>urls.py\<close> registers the three view sets with a \<^verbatim>\<open>DefaultRouter\<close>. For each
  prefix the router serves the collection at \<^verbatim>\<open>prefix/\<close>, a row at
  \<^verbatim>\<open>prefix/{pk}/\<close>, and every method decorated with \<^verbatim>\<open>@action(detail=True)\<close> at
  \<^verbatim>\<open>prefix/{pk}/{url_path}/\<close>, where \<^verbatim>\<open>url_path\<close> is the name of the method unless
  the decorator gives another (none in \<^verbatim>\<open>views.py\<close> does). The primary key matches
  \<^verbatim>\<open>[^/.]+\<close>. The router's format-suffix variants of these routes all need a dot in
  the path and are left out.
\<close>

datatype view = ListingViewSet | BookingViewSet | PaymentViewSet

datatype endpoint =
    Api_root
  | Collection view
  | Detail view string
  | Extra_action view string string
  | Sample_api

definition registry :: "(string \<times> view) list" where
  "registry = [(''listings'', ListingViewSet), (''bookings'', BookingViewSet),
               (''payments'', PaymentViewSet)]"

fun extra_actions :: "view \<Rightarrow> string list" where
  "extra_actions ListingViewSet = []"
| "extra_actions BookingViewSet = [''initiate_payment'']"
| "extra_actions PaymentViewSet = [''initiate_payment'', ''verify_payment'']"

fun split_on :: "char \<Rightarrow> string \<Rightarrow> string list" where
  "split_on c [] = [[]]"
| "split_on c (x # xs) =
     (if x = c then [] # split_on c xs
      else (case split_on c xs of [] \<Rightarrow> [[x]] | y # ys \<Rightarrow> (x # y) # ys))"

definition lookup_ok :: "string \<Rightarrow> bool" where
  "lookup_ok k = (k \<noteq> [] \<and> CHR ''.'' \<notin> set k)"

text \<open>
  Every route ends in a slash, so the last segment of a path that resolves is empty;
  the segments before it select the route.
\<close>

definition router_resolve :: "string \<Rightarrow> endpoint option" where
  "router_resolve path =
     (let segs = split_on CHR ''/'' path in
      if last segs \<noteq> [] then None
      else (case butlast segs of
              [] \<Rightarrow> Some Api_root
            | [pre] \<Rightarrow>
                (case map_of registry pre of None \<Rightarrow> None | Some v \<Rightarrow> Some (Collection v))
            | [pre, k] \<Rightarrow>
                (case map_of registry pre of
                   None \<Rightarrow> None
                 | Some v \<Rightarrow> if lookup_ok k then Some (Detail v k) else None)
            | [pre, k, a] \<Rightarrow>
                (case map_of registry pre of
                   None \<Rightarrow> None
                 | Some v \<Rightarrow>
                     if lookup_ok k \<and> a \<in> set (extra_actions v)
                     then Some (Extra_action v a k) else None)
            | _ \<Rightarrow> None))"

text \<open>\<^verbatim>\<open>urlpatterns\<close>: the router's URLs at the root of the app, then \<^verbatim>\<open>sample/\<close>.\<close>

definition urlpatterns :: "string \<Rightarrow> endpoint option" where
  "urlpatterns path =
     (case router_resolve path of
        Some ep \<Rightarrow> Some ep
      | None \<Rightarrow> if path = ''sample/'' then Some Sample_api else None)"

text \<open>
  The project's own URL configuration, which includes the app's, is not among the
  sources; \<open>mount\<close> is the prefix it includes the app under. The path of a URL is
  resolved without its leading slash.
\<close>

definition resolve :: "string \<Rightarrow> string \<Rightarrow> endpoint option" where
  "resolve mount path =
     (if take (length mount) path = mount then urlpatterns (drop (length mount) path)
      else None)"

text \<open>The path of the callback URL, after the scheme and host of the request.\<close>

definition callback_path :: "payment \<Rightarrow> string" where
  "callback_path p = ''api/payments/'' @ str_nat (payment_id p) @ ''/verify/''"

section \<open>Lookups and saves\<close>

lemma find_map_replace:
  "find (\<lambda>r. key r = k) xs = Some x \<Longrightarrow> key y = k \<Longrightarrow>
   find (\<lambda>r. key r = k) (map (\<lambda>r. if key r = key y then y else r) xs) = Some y"
  by (induction xs) (auto split: if_splits)

lemma find_payment_save_same:
  "find_payment pk w = Some p \<Longrightarrow> payment_id q = pk \<Longrightarrow>
   find_payment pk (payment_save q w) = Some q"
  using find_map_replace [of payment_id pk "payments w" p q]
  by (simp add: find_payment_def payment_save_def)

lemma find_booking_save_same:
  "find_booking pk w = Some b \<Longrightarrow> booking_id c = pk \<Longrightarrow>
   find_booking pk (booking_save c w) = Some c"
  using find_map_replace [of booking_id pk "bookings w" b c]
  by (simp add: find_booking_def booking_save_def)

lemma get_object_routed:
  "get_object (routed pk) lookup w =
     (case lookup pk w of None \<Rightarrow> Inl Http404 | Some obj \<Rightarrow> Inr obj)"
  by (simp add: get_object_def routed_def)

lemma find_payment_mem: "find_payment pk w = Some p \<Longrightarrow> p \<in> set (payments w) \<and> payment_id p = pk"
  by (auto simp: find_payment_def find_Some_iff)

lemma find_booking_mem: "find_booking pk w = Some b \<Longrightarrow> b \<in> set (bookings w) \<and> booking_id b = pk"
  by (auto simp: find_booking_def find_Some_iff)

section \<open>Tables that stay sound\<close>

lemma same_id_same_row:
  "distinct (map payment_id xs) \<Longrightarrow> p \<in> set xs \<Longrightarrow> r \<in> set xs \<Longrightarrow>
   payment_id r = payment_id p \<Longrightarrow> r = p"
  by (meson distinct_map inj_onD)

lemma one_pending_iff: "one_pending w \<longleftrightarrow> (\<forall>bid. length (pending_payments bid w) \<le> 1)"
proof
  assume op: "one_pending w"
  show "\<forall>bid. length (pending_payments bid w) \<le> 1"
  proof
    fix bid
    show "length (pending_payments bid w) \<le> 1"
    proof (cases "\<exists>p\<in>set (payments w). booking_fk p = bid")
      case True
      then show ?thesis using op by (auto simp: one_pending_def list_all_iff)
    next
      case False
      then have "pending_payments bid w = []"
        by (auto simp: pending_payments_def filter_empty_conv)
      then show ?thesis by simp
    qed
  qed
next
  assume "\<forall>bid. length (pending_payments bid w) \<le> 1"
  then show "one_pending w" by (simp add: one_pending_def list_all_iff)
qed

lemma filter_map_length_le:
  "(\<And>r. r \<in> set xs \<Longrightarrow> Q (f r) \<Longrightarrow> Q r) \<Longrightarrow> length (filter Q (map f xs)) \<le> length (filter Q xs)"
  by (induction xs) auto

lemma pending_after_save_le:
  assumes d: "distinct (map payment_id (payments w))"
    and p: "p \<in> set (payments w)"
    and q: "payment_id q = payment_id p" "booking_fk q = booking_fk p"
      "payment_status q = ''pending'' \<Longrightarrow> payment_status p = ''pending''"
  shows "length (pending_payments bid (payment_save q w)) \<le> length (pending_payments bid w)"
proof -
  have "\<And>r. r \<in> set (payments w) \<Longrightarrow> payment_id r = payment_id q \<Longrightarrow> r = p"
    using same_id_same_row[OF d p] q(1) by simp
  then have "length (filter (\<lambda>p. booking_fk p = bid \<and> payment_status p = ''pending'')
                 (map (\<lambda>r. if payment_id r = payment_id q then q else r) (payments w)))
             \<le> length (filter (\<lambda>p. booking_fk p = bid \<and> payment_status p = ''pending'')
                 (payments w))"
    using q by (intro filter_map_length_le) (auto split: if_splits)
  then show ?thesis
    by (simp add: pending_payments_def payment_save_def)
qed


lemma keys_ok_alt:
  "keys_ok w \<longleftrightarrow>
     distinct (map payment_id (payments w))
     \<and> (\<forall>i\<in>set (map payment_id (payments w)). i < next_payment_id w)
     \<and> (\<forall>i\<in>set (map booking_id (bookings w)). i < next_booking_id w)
     \<and> (\<forall>i\<in>set (map booking_fk (payments w)). i < next_booking_id w)"
  by (simp add: keys_ok_def list_all_iff)

lemma ids_after_save: "map payment_id (payments (payment_save q w)) = map payment_id (payments w)"
  by (simp add: payment_save_def o_def)

lemma fks_after_save:
  assumes d: "distinct (map payment_id (payments w))" and p: "p \<in> set (payments w)"
    and q: "payment_id q = payment_id p" "booking_fk q = booking_fk p"
  shows "map booking_fk (payments (payment_save q w)) = map booking_fk (payments w)"
proof -
  have same: "\<And>r. r \<in> set (payments w) \<Longrightarrow> payment_id r = payment_id q \<Longrightarrow> r = p"
    using same_id_same_row[OF d p] q(1) by simp
  have "map (booking_fk \<circ> (\<lambda>r. if payment_id r = payment_id q then q else r)) (payments w)
          = map booking_fk (payments w)"
  proof (rule map_cong [OF refl])
    fix r assume "r \<in> set (payments w)"
    then show "(booking_fk \<circ> (\<lambda>r. if payment_id r = payment_id q then q else r)) r = booking_fk r"
      using same[of r] q(2) by (cases "payment_id r = payment_id q") simp_all
  qed
  then show ?thesis by (simp add: payment_save_def)
qed

lemma keys_after_save:
  assumes k: "keys_ok w" and p: "p \<in> set (payments w)"
    and q: "payment_id q = payment_id p" "booking_fk q = booking_fk p"
  shows "keys_ok (payment_save q w)"
proof -
  have d: "distinct (map payment_id (payments w))" using k by (simp add: keys_ok_def)
  have rest: "bookings (payment_save q w) = bookings w"
    "next_payment_id (payment_save q w) = next_payment_id w"
    "next_booking_id (payment_save q w) = next_booking_id w"
    by (simp_all add: payment_save_def)
  show ?thesis
    using k unfolding keys_ok_alt ids_after_save fks_after_save[OF d p q] rest .
qed


lemma get_object_payment_found:
  "get_object self find_payment w = Inr p \<Longrightarrow> \<exists>pk. find_payment pk w = Some p"
  by (auto simp: get_object_def split: option.splits)

lemma get_object_booking_found:
  "get_object self find_booking w = Inr b \<Longrightarrow> \<exists>pk. find_booking pk w = Some b"
  by (auto simp: get_object_def split: option.splits)

lemma consistent_after_save:
  assumes "keys_ok w" and "one_pending w" and "find_payment pk w = Some p"
    and "payment_id q = payment_id p" and "booking_fk q = booking_fk p"
    and "payment_status q = ''pending'' \<Longrightarrow> payment_status p = ''pending''"
  shows "keys_ok (payment_save q w) \<and> one_pending (payment_save q w)"
proof
  have p: "p \<in> set (payments w)" using assms(3) by (simp add: find_payment_mem)
  have d: "distinct (map payment_id (payments w))" using assms(1) by (simp add: keys_ok_def)
  show "keys_ok (payment_save q w)"
    using assms(1) p assms(4,5) by (rule keys_after_save)
  show "one_pending (payment_save q w)"
    unfolding one_pending_iff
  proof
    fix bid
    have "length (pending_payments bid (payment_save q w)) \<le> length (pending_payments bid w)"
      using d p assms(4,5,6) by (rule pending_after_save_le)
    moreover have "length (pending_payments bid w) \<le> 1"
      using assms(2) by (simp add: one_pending_iff)
    ultimately show "length (pending_payments bid (payment_save q w)) \<le> 1" by simp
  qed
qed

lemma keys_ok_calls [simp]: "keys_ok (w\<lparr>gateway_calls := c\<rparr>) = keys_ok w"
  by (simp add: keys_ok_def)

lemma one_pending_calls [simp]: "one_pending (w\<lparr>gateway_calls := c\<rparr>) = one_pending w"
  by (simp add: one_pending_def pending_payments_def)

lemma find_payment_calls [simp]: "find_payment pk (w\<lparr>gateway_calls := c\<rparr>) = find_payment pk w"
  by (simp add: find_payment_def)

lemma find_booking_calls [simp]: "find_booking pk (w\<lparr>gateway_calls := c\<rparr>) = find_booking pk w"
  by (simp add: find_booking_def)

lemma keys_ok_email [simp]:
  "keys_ok (send_booking_confirmation_email_delay i m t w) = keys_ok w"
  by (simp add: keys_ok_def send_booking_confirmation_email_delay_def)

lemma one_pending_email [simp]:
  "one_pending (send_booking_confirmation_email_delay i m t w) = one_pending w"
  by (simp add: one_pending_def pending_payments_def send_booking_confirmation_email_delay_def)

lemma booking_ids_after_save:
  "map booking_id (bookings (booking_save b w)) = map booking_id (bookings w)"
  by (simp add: booking_save_def o_def)

lemma keys_ok_booking_save [simp]: "keys_ok (booking_save b w) = keys_ok w"
  unfolding keys_ok_alt booking_ids_after_save by (simp add: booking_save_def)

lemma one_pending_booking_save [simp]: "one_pending (booking_save b w) = one_pending w"
  by (simp add: one_pending_def pending_payments_def booking_save_def)

lemma initiate_success_consistent:
  assumes "keys_ok w" and "one_pending w" and "find_payment pk w = Some p"
  shows "keys_ok (snd (initiate_success p d w)) \<and> one_pending (snd (initiate_success p d w))"
proof -
  have "keys_ok (payment_save (p\<lparr>transaction_id := t, payment_url := u\<rparr>) w)
        \<and> one_pending (payment_save (p\<lparr>transaction_id := t, payment_url := u\<rparr>) w)" for t u
    using assms by (rule consistent_after_save) simp_all
  then show ?thesis
    using assms(1,2)
    by (simp add: initiate_success_def Let_def split: option.splits json.splits)
qed

lemma verify_failure_consistent:
  assumes "keys_ok w" and "one_pending w" and "find_payment pk w = Some p"
  shows "keys_ok (snd (verify_failure p body w)) \<and> one_pending (snd (verify_failure p body w))"
proof -
  have "keys_ok (payment_save (p\<lparr>payment_status := ''failed''\<rparr>) w)
        \<and> one_pending (payment_save (p\<lparr>payment_status := ''failed''\<rparr>) w)"
    using assms by (rule consistent_after_save) simp_all
  then show ?thesis by (simp add: verify_failure_def Let_def)
qed

lemma verify_success_consistent:
  assumes "keys_ok w" and "one_pending w" and "find_payment pk w = Some p"
  shows "keys_ok (snd (verify_success p w)) \<and> one_pending (snd (verify_success p w))"
proof -
  have "keys_ok (payment_save (p\<lparr>payment_status := ''completed''\<rparr>) w)
        \<and> one_pending (payment_save (p\<lparr>payment_status := ''completed''\<rparr>) w)"
    using assms by (rule consistent_after_save) simp_all
  then show ?thesis by (simp add: verify_success_def Let_def split: sum.splits)
qed

lemma payment_initiate_consistent:
  assumes "keys_ok w" and "one_pending w"
  shows "keys_ok (snd (PaymentViewSet_initiate_payment self rq arg e w))
         \<and> one_pending (snd (PaymentViewSet_initiate_payment self rq arg e w))"
proof (cases "get_object self find_payment w")
  case (Inl x)
  then show ?thesis using assms by (simp add: PaymentViewSet_initiate_payment_def)
next
  case (Inr p)
  then obtain pk where fp: "find_payment pk w = Some p"
    using get_object_payment_found by blast
  have ok: "keys_ok (snd (initiate_success p d (w\<lparr>gateway_calls := c\<rparr>)))
            \<and> one_pending (snd (initiate_success p d (w\<lparr>gateway_calls := c\<rparr>)))" for d c
    using assms fp by (intro initiate_success_consistent[where pk = pk]) simp_all
  show ?thesis
    using assms Inr ok
    by (simp add: PaymentViewSet_initiate_payment_def send_def
        split: sum.splits gateway_result.splits json.splits)
qed

lemma payment_verify_consistent:
  assumes "keys_ok w" and "one_pending w"
  shows "keys_ok (snd (PaymentViewSet_verify_payment self rq arg e w))
         \<and> one_pending (snd (PaymentViewSet_verify_payment self rq arg e w))"
proof (cases "get_object self find_payment w")
  case (Inl x)
  then show ?thesis using assms by (simp add: PaymentViewSet_verify_payment_def)
next
  case (Inr p)
  then obtain pk where fp: "find_payment pk w = Some p"
    using get_object_payment_found by blast
  have ok1: "keys_ok (snd (verify_success p (w\<lparr>gateway_calls := c\<rparr>)))
            \<and> one_pending (snd (verify_success p (w\<lparr>gateway_calls := c\<rparr>)))" for c
    using assms fp by (intro verify_success_consistent[where pk = pk]) simp_all
  have ok2: "keys_ok (snd (verify_failure p body (w\<lparr>gateway_calls := c\<rparr>)))
            \<and> one_pending (snd (verify_failure p body (w\<lparr>gateway_calls := c\<rparr>)))" for c body
    using assms fp by (intro verify_failure_consistent[where pk = pk]) simp_all
  show ?thesis
    using assms Inr ok1 ok2
    by (simp add: PaymentViewSet_verify_payment_def send_def
        split: sum.splits gateway_result.splits json.splits)
qed


lemma pending_after_create:
  "pending_payments bid (snd (Payment_objects_create b a c r w)) =
     pending_payments bid w @
       (if bid = booking_id b then [fst (Payment_objects_create b a c r w)] else [])"
  by (simp add: Payment_objects_create_def pending_payments_def Let_def)

lemma keys_after_create:
  assumes "keys_ok w" and "booking_id b < next_booking_id w"
  shows "keys_ok (snd (Payment_objects_create b a c r w))"
  using assms
  by (auto simp: keys_ok_def Payment_objects_create_def Let_def list_all_iff less_Suc_eq)

lemma consistent_after_create:
  assumes "keys_ok w" and "one_pending w" and "booking_id b < next_booking_id w"
    and "pending_payments (booking_id b) w = []"
  shows "keys_ok (snd (Payment_objects_create b a c r w))
         \<and> one_pending (snd (Payment_objects_create b a c r w))"
proof
  show "keys_ok (snd (Payment_objects_create b a c r w))"
    using assms(1,3) by (rule keys_after_create)
  show "one_pending (snd (Payment_objects_create b a c r w))"
    unfolding one_pending_iff
  proof
    fix bid
    have "length (pending_payments bid w) \<le> 1" using assms(2) by (simp add: one_pending_iff)
    then show "length (pending_payments bid (snd (Payment_objects_create b a c r w))) \<le> 1"
      using assms(4) by (simp add: pending_after_create)
  qed
qed

lemma booking_key_bound:
  "keys_ok w \<Longrightarrow> find_booking pk w = Some b \<Longrightarrow> booking_id b < next_booking_id w"
  by (auto simp: keys_ok_def list_all_iff dest: find_booking_mem)

lemma get_or_create_found:
  "pending_payments (booking_id b) w = [p] \<Longrightarrow> get_or_create_pending b ref w = Inr (p, w)"
  by (simp add: get_or_create_pending_def Payment_objects_get_def)

lemma get_or_create_none:
  "pending_payments (booking_id b) w = [] \<Longrightarrow>
   get_or_create_pending b ref w = Inr (Payment_objects_create b (total_price b) ''ETB'' ref w)"
  by (simp add: get_or_create_pending_def Payment_objects_get_def)

lemma get_or_create_several:
  "pending_payments (booking_id b) w = p # q # ps \<Longrightarrow>
   get_or_create_pending b ref w = Inl MultipleObjectsReturned"
  by (simp add: get_or_create_pending_def Payment_objects_get_def)

lemma get_or_create_consistent:
  assumes "keys_ok w" and "one_pending w" and "find_booking pk w = Some b"
    and "get_or_create_pending b ref w = Inr (p, w1)"
  shows "keys_ok w1 \<and> one_pending w1"
proof (cases "pending_payments (booking_id b) w")
  case Nil
  then have "w1 = snd (Payment_objects_create b (total_price b) ''ETB'' ref w)"
    using assms(4) by (simp add: get_or_create_none)
  then show ?thesis
    using consistent_after_create[OF assms(1,2) booking_key_bound[OF assms(1,3)] Nil] by simp
next
  case (Cons x xs)
  then show ?thesis
    using assms by (cases xs) (simp_all add: get_or_create_found get_or_create_several)
qed

lemma booking_initiate_consistent:
  assumes "keys_ok w" and "one_pending w"
  shows "keys_ok (snd (BookingViewSet_initiate_payment self rq arg ref e w))
         \<and> one_pending (snd (BookingViewSet_initiate_payment self rq arg ref e w))"
proof (cases "get_object self find_booking w")
  case (Inl x)
  then show ?thesis using assms by (simp add: BookingViewSet_initiate_payment_def)
next
  case (Inr b)
  then obtain pk where fb: "find_booking pk w = Some b"
    using get_object_booking_found by blast
  show ?thesis
  proof (cases "get_or_create_pending b ref w")
    case (Inl x)
    then show ?thesis using assms Inr by (simp add: BookingViewSet_initiate_payment_def)
  next
    case (Inr r)
    obtain p w1 where r: "r = (p, w1)" by (cases r)
    have "keys_ok w1 \<and> one_pending w1"
      using get_or_create_consistent[OF assms fb] Inr r by simp
    then have "keys_ok (snd (PaymentViewSet_initiate_payment s rq a e w1))
               \<and> one_pending (snd (PaymentViewSet_initiate_payment s rq a e w1))" for s a
      by (simp add: payment_initiate_consistent)
    then show ?thesis
      using \<open>get_object self find_booking w = Inr b\<close> Inr r
      by (simp add: BookingViewSet_initiate_payment_def)
  qed
qed

lemma perform_create_consistent:
  assumes "keys_ok w" and "one_pending w"
  shows "keys_ok (snd (perform_create s ref w)) \<and> one_pending (snd (perform_create s ref w))"
proof -
  let ?b = "fst (serializer_save s w)"
  let ?w1 = "snd (serializer_save s w)"
  have k1: "keys_ok ?w1"
    using assms(1) by (auto simp: keys_ok_def serializer_save_def Let_def list_all_iff less_Suc_eq)
  have pend: "pending_payments bid ?w1 = pending_payments bid w" for bid
    by (simp add: pending_payments_def serializer_save_def Let_def)
  have o1: "one_pending ?w1"
    using assms(2) by (simp add: one_pending_iff pend)
  have lt: "booking_id ?b < next_booking_id ?w1"
    by (simp add: serializer_save_def Let_def)
  have "pending_payments (booking_id ?b) w = []"
    using assms(1)
    by (auto simp: pending_payments_def filter_empty_conv keys_ok_def list_all_iff
        serializer_save_def Let_def)
  then have none: "pending_payments (booking_id ?b) ?w1 = []" by (simp add: pend)
  have "keys_ok (snd (Payment_objects_create ?b (total_price ?b) ''ETB'' ref ?w1))
        \<and> one_pending (snd (Payment_objects_create ?b (total_price ?b) ''ETB'' ref ?w1))"
    using k1 o1 lt none by (rule consistent_after_create)
  then show ?thesis
    by (simp add: perform_create_def split_beta Let_def)
qed

lemma run_defined_consistent:
  assumes "keys_ok w" and "one_pending w"
  shows "keys_ok (run_defined e op w) \<and> one_pending (run_defined e op w)"
proof (cases op)
  case (Create_booking s ref)
  then show ?thesis using perform_create_consistent[OF assms] by simp
next
  case (Booking_initiate_payment pk rq ref)
  then show ?thesis using booking_initiate_consistent[OF assms] by simp
next
  case (Payment_initiate_payment pk rq)
  then show ?thesis using payment_initiate_consistent[OF assms] by simp
next
  case (Payment_verify_payment pk rq)
  then show ?thesis using payment_verify_consistent[OF assms] by simp
qed

section \<open>What the views leave alone\<close>

lemma payment_initiate_bookings:
  "bookings (snd (PaymentViewSet_initiate_payment self rq arg e w)) = bookings w"
  by (simp add: PaymentViewSet_initiate_payment_def send_def initiate_success_def payment_save_def
      Let_def split: sum.splits gateway_result.splits json.splits option.splits)

lemma get_or_create_bookings:
  "get_or_create_pending b ref w = Inr (p, w1) \<Longrightarrow> bookings w1 = bookings w"
  by (auto simp: get_or_create_pending_def Payment_objects_create_def Let_def
      split: sum.splits if_splits)

lemma booking_initiate_bookings:
  "bookings (snd (BookingViewSet_initiate_payment self rq arg ref e w)) = bookings w"
proof (cases "get_object self find_booking w")
  case (Inl x)
  then show ?thesis by (simp add: BookingViewSet_initiate_payment_def)
next
  case b: (Inr b)
  show ?thesis
  proof (cases "get_or_create_pending b ref w")
    case (Inl x)
    then show ?thesis using b by (simp add: BookingViewSet_initiate_payment_def)
  next
    case (Inr r)
    obtain p w1 where r: "r = (p, w1)" by (cases r)
    have "get_or_create_pending b ref w = Inr (p, w1)" using Inr r by simp
    then have "bookings w1 = bookings w" by (rule get_or_create_bookings)
    then show ?thesis
      using b Inr r by (simp add: BookingViewSet_initiate_payment_def payment_initiate_bookings)
  qed
qed

section \<open>The pending Payment of a booking across two initiations\<close>

lemma map_filter_map_same:
  "(\<And>r. r \<in> set xs \<Longrightarrow> Q (f r) = Q r \<and> g (f r) = g r) \<Longrightarrow>
   map g (filter Q (map f xs)) = map g (filter Q xs)"
  by (induction xs) auto

lemma pending_ids_after_save:
  assumes d: "distinct (map payment_id (payments w))"
    and p: "p \<in> set (payments w)"
    and q: "payment_id q = payment_id p" "booking_fk q = booking_fk p"
      "payment_status q = payment_status p"
  shows "map payment_id (pending_payments bid (payment_save q w))
           = map payment_id (pending_payments bid w)"
proof -
  have same: "\<And>r. r \<in> set (payments w) \<Longrightarrow> payment_id r = payment_id q \<Longrightarrow> r = p"
    using same_id_same_row[OF d p] q(1) by simp
  have "map payment_id (filter (\<lambda>p. booking_fk p = bid \<and> payment_status p = ''pending'')
                 (map (\<lambda>r. if payment_id r = payment_id q then q else r) (payments w)))
        = map payment_id (filter (\<lambda>p. booking_fk p = bid \<and> payment_status p = ''pending'')
                 (payments w))"
  proof (rule map_filter_map_same)
    fix r assume "r \<in> set (payments w)"
    then show "(booking_fk (if payment_id r = payment_id q then q else r) = bid \<and>
          payment_status (if payment_id r = payment_id q then q else r) = ''pending'') =
         (booking_fk r = bid \<and> payment_status r = ''pending'') \<and>
         payment_id (if payment_id r = payment_id q then q else r) = payment_id r"
      using same[of r] q by (cases "payment_id r = payment_id q") simp_all
  qed
  then show ?thesis
    by (simp add: pending_payments_def payment_save_def)
qed

lemma pending_calls [simp]:
  "pending_payments bid (w\<lparr>gateway_calls := c\<rparr>) = pending_payments bid w"
  by (simp add: pending_payments_def)

lemma initiate_success_ids:
  assumes "keys_ok w" and "find_payment pk w = Some p"
  shows "map payment_id (pending_payments bid (snd (initiate_success p d w)))
           = map payment_id (pending_payments bid w)
         \<and> map payment_id (payments (snd (initiate_success p d w))) = map payment_id (payments w)"
proof -
  have d: "distinct (map payment_id (payments w))" using assms(1) by (simp add: keys_ok_def)
  have p: "p \<in> set (payments w)" using assms(2) by (simp add: find_payment_mem)
  have "map payment_id (pending_payments bid
            (payment_save (p\<lparr>transaction_id := t, payment_url := u\<rparr>) w))
          = map payment_id (pending_payments bid w)" for t u
    using d p by (rule pending_ids_after_save) simp_all
  then show ?thesis
    by (simp add: initiate_success_def Let_def ids_after_save split: option.splits json.splits)
qed

lemma payment_initiate_ids:
  assumes "keys_ok w"
  shows "map payment_id (pending_payments bid (snd (PaymentViewSet_initiate_payment self rq arg e w)))
           = map payment_id (pending_payments bid w)
         \<and> map payment_id (payments (snd (PaymentViewSet_initiate_payment self rq arg e w)))
           = map payment_id (payments w)"
proof (cases "get_object self find_payment w")
  case (Inl x)
  then show ?thesis by (simp add: PaymentViewSet_initiate_payment_def)
next
  case (Inr p)
  then obtain pk where fp: "find_payment pk w = Some p"
    using get_object_payment_found by blast
  have ok: "map payment_id (pending_payments bid (snd (initiate_success p d (w\<lparr>gateway_calls := c\<rparr>))))
              = map payment_id (pending_payments bid w)
            \<and> map payment_id (payments (snd (initiate_success p d (w\<lparr>gateway_calls := c\<rparr>))))
              = map payment_id (payments w)" for d c
    using initiate_success_ids[of "w\<lparr>gateway_calls := c\<rparr>" pk p bid d] assms fp by simp
  show ?thesis
    using Inr ok
    by (simp add: PaymentViewSet_initiate_payment_def send_def
        split: sum.splits gateway_result.splits json.splits)
qed

lemma get_or_create_pending_one:
  assumes "one_pending w" and "find_booking bk w = Some b"
  shows "\<exists>p w1. get_or_create_pending b ref w = Inr (p, w1) \<and> pending_payments bk w1 = [p]
           \<and> (pending_payments bk w \<noteq> [] \<longrightarrow> w1 = w)"
proof -
  have bk: "booking_id b = bk" using assms(2) by (simp add: find_booking_mem)
  have le: "length (pending_payments bk w) \<le> 1" using assms(1) by (simp add: one_pending_iff)
  show ?thesis
  proof (cases "pending_payments bk w")
    case Nil
    then show ?thesis
      using bk get_or_create_none[of b w ref]
        pending_after_create[of bk b "total_price b" "''ETB''" ref w]
      by (cases "Payment_objects_create b (total_price b) ''ETB'' ref w") simp
  next
    case (Cons x xs)
    then have "pending_payments bk w = [x]" using le by simp
    then show ?thesis using bk get_or_create_found[of b w x ref] by simp
  qed
qed

lemma booking_initiate_routed:
  assumes "find_booking bk w = Some b" and "get_or_create_pending b ref w = Inr (p, w1)"
  shows "run_defined e (Booking_initiate_payment bk rq ref) w =
           snd (PaymentViewSet_initiate_payment \<lparr>kwargs = None\<rparr> rq (Some (payment_id p)) e w1)"
  using assms by (simp add: BookingViewSet_initiate_payment_def get_object_routed)

lemma booking_initiate_twice:
  fixes e1 e2 rq1 rq2 ref1 ref2
  assumes k: "keys_ok w" and o: "one_pending w" and fb: "find_booking bk w = Some b"
  defines "w1 \<equiv> run_defined e1 (Booking_initiate_payment bk rq1 ref1) w"
  defines "w2 \<equiv> run_defined e2 (Booking_initiate_payment bk rq2 ref2) w1"
  shows "length (pending_payments bk w1) = 1
         \<and> map payment_id (pending_payments bk w2) = map payment_id (pending_payments bk w1)
         \<and> map payment_id (payments w2) = map payment_id (payments w1)"
proof -
  obtain p wc where g1: "get_or_create_pending b ref1 w = Inr (p, wc)"
    and pc: "pending_payments bk wc = [p]"
    using get_or_create_pending_one[OF o fb] by blast
  have kc: "keys_ok wc \<and> one_pending wc"
    using get_or_create_consistent[OF k o fb g1] .
  have w1: "w1 = snd (PaymentViewSet_initiate_payment \<lparr>kwargs = None\<rparr> rq1 (Some (payment_id p)) e1 wc)"
    unfolding w1_def using fb g1 by (rule booking_initiate_routed)
  have ids1: "map payment_id (pending_payments bk w1) = [payment_id p]"
    unfolding w1 using payment_initiate_ids[of wc bk] kc pc by simp
  then have len: "length (pending_payments bk w1) = 1"
    using length_map[of payment_id "pending_payments bk w1"] by simp
  have k1: "keys_ok w1 \<and> one_pending w1"
    unfolding w1 using kc by (simp add: payment_initiate_consistent)
  have "bookings w1 = bookings w"
    unfolding w1 using get_or_create_bookings[OF g1] by (simp add: payment_initiate_bookings)
  then have fb1: "find_booking bk w1 = Some b" using fb by (simp add: find_booking_def)
  have ne: "pending_payments bk w1 \<noteq> []" using len by auto
  obtain p1 where g2: "get_or_create_pending b ref2 w1 = Inr (p1, w1)"
    using get_or_create_pending_one[of w1 bk b ref2] k1 fb1 ne by auto
  have w2: "w2 = snd (PaymentViewSet_initiate_payment \<lparr>kwargs = None\<rparr> rq2 (Some (payment_id p1)) e2 w1)"
    unfolding w2_def using fb1 g2 by (rule booking_initiate_routed)
  show ?thesis
    using len payment_initiate_ids[of w1 bk] k1 unfolding w2 by simp
qed

section \<open>The status of a Payment across an operation\<close>

lemma find_map_replace_any:
  "find (\<lambda>r. key r = k) (map (\<lambda>r. if key r = key q then q else r) xs) =
     (if key q = k then map_option (\<lambda>_. q) (find (\<lambda>r. key r = k) xs)
      else find (\<lambda>r. key r = k) xs)"
  by (induction xs) auto

lemma find_payment_after_save:
  "find_payment pk (payment_save q w) =
     (if payment_id q = pk then map_option (\<lambda>_. q) (find_payment pk w) else find_payment pk w)"
  using find_map_replace_any [of payment_id pk q "payments w"]
  by (simp add: find_payment_def payment_save_def)

lemma find_append_Some: "find P xs = Some x \<Longrightarrow> find P (xs @ ys) = Some x"
  by (induction xs) (auto split: if_splits)

lemma find_payment_after_create:
  "find_payment pk w = Some p \<Longrightarrow>
   find_payment pk (snd (Payment_objects_create b a c r w)) = Some p"
  by (simp add: find_payment_def Payment_objects_create_def Let_def find_append_Some)

lemma find_payment_booking_save [simp]:
  "find_payment pk (booking_save b w) = find_payment pk w"
  by (simp add: find_payment_def booking_save_def)

lemma find_payment_email [simp]:
  "find_payment pk (send_booking_confirmation_email_delay i m t w) = find_payment pk w"
  by (simp add: find_payment_def send_booking_confirmation_email_delay_def)

text \<open>
  Saving \<open>q\<close> under the key of a row \<open>p0\<close> read from the table: the row found under
  \<open>pk\<close> afterwards is \<open>q\<close> when that is the key saved under, and the old row otherwise.
\<close>

lemma status_after_save:
  assumes "find_payment pk w = Some p" and "find_payment pk0 w = Some p0"
    and "payment_id q = payment_id p0"
  shows "find_payment pk (payment_save q w) = Some (if pk0 = pk then q else p)"
  using assms find_payment_mem[OF assms(2)]
  by (auto simp: find_payment_after_save)

lemma initiate_success_status:
  assumes "find_payment pk w = Some p" and "find_payment pk0 w = Some p0"
  shows "\<exists>p'. find_payment pk (snd (initiate_success p0 d w)) = Some p'
              \<and> payment_status p' = payment_status p"
proof -
  have "\<exists>p'. find_payment pk (payment_save (p0\<lparr>transaction_id := t, payment_url := u\<rparr>) w) = Some p'
              \<and> payment_status p' = payment_status p" for t u
    using status_after_save[OF assms, of "p0\<lparr>transaction_id := t, payment_url := u\<rparr>"] assms
    by auto
  then show ?thesis
    using assms(1)
    by (simp add: initiate_success_def Let_def split: option.splits json.splits)
qed

lemma payment_initiate_status:
  assumes "find_payment pk w = Some p"
  shows "\<exists>p'. find_payment pk (snd (PaymentViewSet_initiate_payment self rq arg e w)) = Some p'
              \<and> payment_status p' = payment_status p"
proof (cases "get_object self find_payment w")
  case (Inl x)
  then show ?thesis using assms by (simp add: PaymentViewSet_initiate_payment_def)
next
  case (Inr p0)
  then obtain pk0 where fp: "find_payment pk0 w = Some p0"
    using get_object_payment_found by blast
  have ok: "\<exists>p'. find_payment pk (snd (initiate_success p0 d (w\<lparr>gateway_calls := c\<rparr>))) = Some p'
              \<and> payment_status p' = payment_status p" for d c
    using initiate_success_status[of pk "w\<lparr>gateway_calls := c\<rparr>" p pk0 p0 d] assms fp by simp
  show ?thesis
    using assms Inr ok
    by (simp add: PaymentViewSet_initiate_payment_def send_def
        split: sum.splits gateway_result.splits json.splits)
qed

lemma terminal_literals [simp]: "terminal ''failed''" "terminal ''completed''"
  by (simp_all add: terminal_def)

lemma verify_failure_status:
  assumes "find_payment pk w = Some p" and "find_payment pk0 w = Some p0"
  shows "\<exists>p'. find_payment pk (snd (verify_failure p0 body w)) = Some p'
              \<and> (payment_status p' = payment_status p \<or> terminal (payment_status p'))"
proof -
  have "find_payment pk (payment_save (p0\<lparr>payment_status := ''failed''\<rparr>) w)
          = Some (if pk0 = pk then p0\<lparr>payment_status := ''failed''\<rparr> else p)"
    using assms by (rule status_after_save) simp
  then show ?thesis
    by (cases "pk0 = pk") (simp_all add: verify_failure_def Let_def)
qed

lemma verify_success_status:
  assumes "find_payment pk w = Some p" and "find_payment pk0 w = Some p0"
  shows "\<exists>p'. find_payment pk (snd (verify_success p0 w)) = Some p'
              \<and> (payment_status p' = payment_status p \<or> terminal (payment_status p'))"
proof -
  have "find_payment pk (payment_save (p0\<lparr>payment_status := ''completed''\<rparr>) w)
          = Some (if pk0 = pk then p0\<lparr>payment_status := ''completed''\<rparr> else p)"
    using assms by (rule status_after_save) simp
  then show ?thesis
    by (cases "pk0 = pk") (simp_all add: verify_success_def Let_def split: sum.splits)
qed

lemma payment_verify_status:
  assumes "find_payment pk w = Some p"
  shows "\<exists>p'. find_payment pk (snd (PaymentViewSet_verify_payment self rq arg e w)) = Some p'
              \<and> (payment_status p' = payment_status p \<or> terminal (payment_status p'))"
proof (cases "get_object self find_payment w")
  case (Inl x)
  then show ?thesis using assms by (simp add: PaymentViewSet_verify_payment_def)
next
  case (Inr p0)
  then obtain pk0 where fp: "find_payment pk0 w = Some p0"
    using get_object_payment_found by blast
  have ok1: "\<exists>p'. find_payment pk (snd (verify_success p0 (w\<lparr>gateway_calls := c\<rparr>))) = Some p'
              \<and> (payment_status p' = payment_status p \<or> terminal (payment_status p'))" for c
    using verify_success_status[of pk "w\<lparr>gateway_calls := c\<rparr>" p pk0 p0] assms fp by simp
  have ok2: "\<exists>p'. find_payment pk (snd (verify_failure p0 body (w\<lparr>gateway_calls := c\<rparr>))) = Some p'
              \<and> (payment_status p' = payment_status p \<or> terminal (payment_status p'))" for c body
    using verify_failure_status[of pk "w\<lparr>gateway_calls := c\<rparr>" p pk0 p0] assms fp by simp
  show ?thesis
    using assms Inr ok1 ok2
    by (simp add: PaymentViewSet_verify_payment_def send_def
        split: sum.splits gateway_result.splits json.splits)
qed

lemma get_or_create_status:
  assumes "find_payment pk w = Some p" and "get_or_create_pending b ref w = Inr (q, w1)"
  shows "find_payment pk w1 = Some p"
proof -
  have "w1 = w \<or> w1 = snd (Payment_objects_create b (total_price b) ''ETB'' ref w)"
    using assms(2) by (auto simp: get_or_create_pending_def split: sum.splits if_splits)
  then show ?thesis
    using assms(1) find_payment_after_create[OF assms(1)] by auto
qed

lemma booking_initiate_status:
  assumes "find_payment pk w = Some p"
  shows "\<exists>p'. find_payment pk (snd (BookingViewSet_initiate_payment self rq arg ref e w)) = Some p'
              \<and> payment_status p' = payment_status p"
proof (cases "get_object self find_booking w")
  case (Inl x)
  then show ?thesis using assms by (simp add: BookingViewSet_initiate_payment_def)
next
  case b: (Inr b)
  show ?thesis
  proof (cases "get_or_create_pending b ref w")
    case (Inl x)
    then show ?thesis using assms b by (simp add: BookingViewSet_initiate_payment_def)
  next
    case (Inr r)
    obtain q w1 where r: "r = (q, w1)" by (cases r)
    have g: "get_or_create_pending b ref w = Inr (q, w1)" using Inr r by simp
    have "find_payment pk w1 = Some p"
      using assms g by (rule get_or_create_status)
    then have "\<exists>p'. find_payment pk (snd (PaymentViewSet_initiate_payment s rq a e w1)) = Some p'
              \<and> payment_status p' = payment_status p" for s a
      by (rule payment_initiate_status)
    then show ?thesis
      using b Inr r by (simp add: BookingViewSet_initiate_payment_def)
  qed
qed

lemma perform_create_status:
  assumes "find_payment pk w = Some p"
  shows "find_payment pk (snd (perform_create s ref w)) = Some p"
  using assms
  by (simp add: perform_create_def serializer_save_def Payment_objects_create_def
      send_booking_confirmation_email_delay_def Let_def find_payment_def find_append_Some)

lemma run_defined_status:
  assumes "find_payment pk w = Some p"
  shows "\<exists>p'. find_payment pk (run_defined e op w) = Some p'
           \<and> (payment_status p' = payment_status p
               \<or> (is_verify op \<and> terminal (payment_status p')))"
proof (cases op)
  case (Create_booking s ref)
  then show ?thesis using perform_create_status[OF assms] by simp
next
  case (Booking_initiate_payment bk rq ref)
  obtain p' where "find_payment pk (snd (BookingViewSet_initiate_payment (routed bk) rq (Some bk) ref e w)) = Some p'"
    "payment_status p' = payment_status p"
    using booking_initiate_status[OF assms] by blast
  then show ?thesis using Booking_initiate_payment by simp
next
  case (Payment_initiate_payment k rq)
  obtain p' where "find_payment pk (snd (PaymentViewSet_initiate_payment (routed k) rq (Some k) e w)) = Some p'"
    "payment_status p' = payment_status p"
    using payment_initiate_status[OF assms] by blast
  then show ?thesis using Payment_initiate_payment by simp
next
  case (Payment_verify_payment k rq)
  obtain p' where "find_payment pk (snd (PaymentViewSet_verify_payment (routed k) rq (Some k) e w)) = Some p'"
    "payment_status p' = payment_status p \<or> terminal (payment_status p')"
    using payment_verify_status[OF assms] by blast
  then show ?thesis using Payment_verify_payment by simp
qed

section \<open>Paths and their segments\<close>

lemma split_on_nonempty: "split_on c s \<noteq> []"
  by (induction s) (auto split: list.splits)

lemma split_on_single: "split_on c s = [y] \<Longrightarrow> s = y"
proof (induction s arbitrary: y)
  case Nil
  then show ?case by simp
next
  case (Cons x xs)
  show ?case
  proof (cases "x = c")
    case True
    then show ?thesis using Cons.prems split_on_nonempty[of c xs] by simp
  next
    case False
    then obtain y' where "split_on c xs = [y']" "y = x # y'"
      using Cons.prems split_on_nonempty[of c xs] by (auto split: list.splits)
    then show ?thesis using Cons.IH by simp
  qed
qed

lemma split_on_cons:
  "split_on c s = y # ys \<Longrightarrow> ys \<noteq> [] \<Longrightarrow> \<exists>t. s = y @ c # t \<and> split_on c t = ys"
proof (induction s arbitrary: y)
  case Nil
  then show ?case by simp
next
  case (Cons x xs)
  show ?case
  proof (cases "x = c")
    case True
    then show ?thesis using Cons.prems by auto
  next
    case False
    then obtain y' where s: "split_on c xs = y' # ys" "y = x # y'"
      using Cons.prems by (auto split: list.splits)
    then obtain t where "xs = y' @ c # t" "split_on c t = ys"
      using Cons.IH Cons.prems(2) by blast
    then show ?thesis using s by simp
  qed
qed

lemma split_on_four:
  assumes "split_on c s = [p, k, a, []]"
  shows "s = p @ c # k @ c # a @ [c]"
proof -
  obtain t1 where t1: "s = p @ c # t1" "split_on c t1 = [k, a, []]"
    using split_on_cons[OF assms] by auto
  obtain t2 where t2: "t1 = k @ c # t2" "split_on c t2 = [a, []]"
    using split_on_cons[OF t1(2)] by auto
  obtain t3 where t3: "t2 = a @ c # t3" "split_on c t3 = [[]]"
    using split_on_cons[OF t2(2)] by auto
  have "t3 = []" using t3(2) by (rule split_on_single)
  then show ?thesis using t1 t2 t3 by simp
qed

lemma router_resolve_action:
  assumes "router_resolve path = Some (Extra_action v a k)"
  shows "\<exists>pre. path = pre @ CHR ''/'' # k @ CHR ''/'' # a @ ''/''"
proof -
  let ?segs = "split_on CHR ''/'' path"
  have l: "last ?segs = []"
    using assms by (auto simp: router_resolve_def Let_def split: if_splits)
  then obtain pre where b: "butlast ?segs = [pre, k, a]"
    using assms
    by (auto simp: router_resolve_def Let_def split: if_splits list.splits option.splits)
  have "?segs = butlast ?segs @ [last ?segs]"
    using split_on_nonempty by simp
  then have "?segs = [pre, k, a, []]" using l b by simp
  then show ?thesis using split_on_four by blast
qed

lemma callback_path_never_verify_route:
  "resolve mount (callback_path p) \<noteq> Some (Extra_action v ''verify_payment'' k)"
proof
  assume r: "resolve mount (callback_path p) = Some (Extra_action v ''verify_payment'' k)"
  let ?rest = "drop (length mount) (callback_path p)"
  have "router_resolve ?rest = Some (Extra_action v ''verify_payment'' k)"
    using r by (auto simp: resolve_def urlpatterns_def split: if_splits option.splits)
  then obtain pre where "?rest = pre @ CHR ''/'' # k @ CHR ''/'' # ''verify_payment/''"
    using router_resolve_action by fastforce
  then have "callback_path p =
      (take (length mount) (callback_path p) @ pre @ CHR ''/'' # k @ ''/verify_'') @ ''payment/''"
    using append_take_drop_id[of "length mount" "callback_path p"] by simp
  moreover have "callback_path p = (''api/payments/'' @ str_nat (payment_id p)) @ ''/verify/''"
    by (simp add: callback_path_def)
  ultimately have "''payment/'' = ''/verify/''"
    by (metis append_eq_append_conv length_Cons)
  then show False by simp
qed

section \<open>verify_payment\<close>

text \<open>
  C1. A Payment with a stored transaction identifier whose booking exists is verified
  against a gateway that answers status 200 with body status \<^verbatim>\<open>success\<close>: the
  Payment becomes \<^verbatim>\<open>completed\<close>, its Booking \<^verbatim>\<open>confirmed\<close>, one confirmation-email
  job is appended to the queue, and the view answers 200 with status \<^verbatim>\<open>success\<close>.
\<close>

theorem verify_payment_success:
  assumes "find_payment pk w = Some p" and "truthy (transaction_id p)"
    and "find_booking (booking_fk p) w = Some b"
    and "chapa e (GET (CHAPA_API_URL @ ''/transaction/verify/'' @ str_json (transaction_id p))
                   (headers e)) = Reply 200 (JObj d)"
    and "dict_get d ''status'' = JStr ''success''"
  shows "case PaymentViewSet_verify_payment (routed pk) rq arg e w of
           (r, w') \<Rightarrow>
             r = Inr (Response [(''status'', JStr ''success''),
                                (''message'', JStr ''Payment verified successfully'')] 200)
             \<and> find_payment pk w' = Some (p\<lparr>payment_status := ''completed''\<rparr>)
             \<and> find_booking (booking_fk p) w' = Some (b\<lparr>booking_status := ''confirmed''\<rparr>)
             \<and> email_queue w' = email_queue w @
                  [\<lparr>job_booking_id = booking_id b, job_user_email = email (user b),
                    job_listing_title = title (listing b)\<rparr>]"
proof -
  let ?w1 = "w\<lparr>gateway_calls := gateway_calls w @
     [GET (CHAPA_API_URL @ ''/transaction/verify/'' @ str_json (transaction_id p)) (headers e)]\<rparr>"
  let ?p1 = "p\<lparr>payment_status := ''completed''\<rparr>"
  let ?b1 = "b\<lparr>booking_status := ''confirmed''\<rparr>"
  have id: "payment_id p = pk" using assms(1) by (simp add: find_payment_mem)
  have fb: "find_booking (booking_fk p) (payment_save ?p1 ?w1) = Some b"
    using assms(3) by (simp add: find_booking_def payment_save_def)
  have run: "PaymentViewSet_verify_payment (routed pk) rq arg e w = verify_success p ?w1"
    using assms by (simp add: PaymentViewSet_verify_payment_def get_object_routed send_def)
  have vs: "verify_success p ?w1 =
      (Inr (Response_ok [(''status'', JStr ''success''),
                         (''message'', JStr ''Payment verified successfully'')]),
       send_booking_confirmation_email_delay (booking_id ?b1) (email (user ?b1)) (title (listing ?b1))
         (booking_save ?b1 (payment_save ?p1 ?w1)))"
    using fb by (simp add: verify_success_def payment_booking_def Let_def)
  have p': "find_payment pk (payment_save ?p1 ?w1) = Some ?p1"
    using assms(1) id by (simp add: find_payment_save_same)
  have b': "find_booking (booking_fk p) (booking_save ?b1 (payment_save ?p1 ?w1)) = Some ?b1"
    using fb find_booking_mem[OF assms(3)] by (simp add: find_booking_save_same)
  show ?thesis
    unfolding run vs using p' b'
    by (simp add: send_booking_confirmation_email_delay_def find_payment_def find_booking_def
        booking_save_def payment_save_def Response_ok_def)
qed

theorem verify_payment_success_witness:
  "find_payment 1 (world_of payment1_initiated) = Some payment1_initiated
   \<and> truthy (transaction_id payment1_initiated)
   \<and> find_booking (booking_fk payment1_initiated) (world_of payment1_initiated) = Some booking1
   \<and> (case PaymentViewSet_verify_payment (routed 1) local_request (Some 1)
             (answering (Reply 200 (JObj [(''status'', JStr ''success'')])))
             (world_of payment1_initiated) of
        (r, w') \<Rightarrow>
          r = Inr (Response [(''status'', JStr ''success''),
                             (''message'', JStr ''Payment verified successfully'')] 200)
          \<and> find_payment 1 w' = Some (payment1_initiated\<lparr>payment_status := ''completed''\<rparr>)
          \<and> find_booking (booking_fk payment1_initiated) w'
              = Some (booking1\<lparr>booking_status := ''confirmed''\<rparr>)
          \<and> email_queue w' = email_queue (world_of payment1_initiated) @
               [\<lparr>job_booking_id = booking_id booking1, job_user_email = email (user booking1),
                 job_listing_title = title (listing booking1)\<rparr>])"
proof -
  let ?e = "answering (Reply 200 (JObj [(''status'', JStr ''success'')]))"
  let ?w = "world_of payment1_initiated"
  have h1: "find_payment 1 ?w = Some payment1_initiated"
    by (simp add: find_payment_def world_of_def payment1_initiated_def payment1_def)
  have h2: "truthy (transaction_id payment1_initiated)"
    by (simp add: payment1_initiated_def)
  have h3: "find_booking (booking_fk payment1_initiated) ?w = Some booking1"
    by (simp add: find_booking_def world_of_def payment1_initiated_def payment1_def booking1_def)
  have h4: "chapa ?e (GET (CHAPA_API_URL @ ''/transaction/verify/''
                @ str_json (transaction_id payment1_initiated)) (headers ?e))
              = Reply 200 (JObj [(''status'', JStr ''success'')])"
    by (simp add: answering_def)
  have h5: "dict_get [(''status'', JStr ''success'')] ''status'' = JStr ''success''"
    by (simp add: dict_get_def)
  show ?thesis
    using h1 h2 h3 verify_payment_success [OF h1 h2 h3 h4 h5, of local_request "Some 1"]
    by blast
qed

text \<open>
  C5. A Payment with a stored transaction identifier is verified against a gateway that
  answers with a status code other than 200, or with an object whose status is not
  \<^verbatim>\<open>success\<close>: the Payment becomes \<^verbatim>\<open>failed\<close>, no Booking row and no queued job
  changes, and the view answers 400 with the gateway's body as details.
\<close>

theorem verify_payment_gateway_failure:
  assumes "find_payment pk w = Some p" and "truthy (transaction_id p)"
    and "chapa e (GET (CHAPA_API_URL @ ''/transaction/verify/'' @ str_json (transaction_id p))
                   (headers e)) = Reply code body"
    and "code \<noteq> 200 \<or> (\<exists>d. body = JObj d \<and> dict_get d ''status'' \<noteq> JStr ''success'')"
  shows "case PaymentViewSet_verify_payment (routed pk) rq arg e w of
           (r, w') \<Rightarrow>
             r = Inr (Response [(''status'', JStr ''error''),
                                (''message'', JStr ''Payment verification failed''),
                                (''details'', body)] 400)
             \<and> find_payment pk w' = Some (p\<lparr>payment_status := ''failed''\<rparr>)
             \<and> bookings w' = bookings w
             \<and> email_queue w' = email_queue w"
proof -
  let ?w1 = "w\<lparr>gateway_calls := gateway_calls w @
     [GET (CHAPA_API_URL @ ''/transaction/verify/'' @ str_json (transaction_id p)) (headers e)]\<rparr>"
  have run: "PaymentViewSet_verify_payment (routed pk) rq arg e w = verify_failure p body ?w1"
    using assms by (auto simp: PaymentViewSet_verify_payment_def get_object_routed send_def)
  have p': "find_payment pk (payment_save (p\<lparr>payment_status := ''failed''\<rparr>) ?w1)
              = Some (p\<lparr>payment_status := ''failed''\<rparr>)"
    using assms(1) find_payment_mem[OF assms(1)] by (simp add: find_payment_save_same)
  show ?thesis
    unfolding run using p'
    by (simp add: verify_failure_def Let_def HTTP_400_BAD_REQUEST_def payment_save_def)
qed

theorem verify_payment_gateway_failure_witness:
  "find_payment 1 (world_of payment1_initiated) = Some payment1_initiated
   \<and> truthy (transaction_id payment1_initiated)
   \<and> (case PaymentViewSet_verify_payment (routed 1) local_request (Some 1)
             (answering (Reply 200 (JObj [(''status'', JStr ''failed'')])))
             (world_of payment1_initiated) of
        (r, w') \<Rightarrow>
          r = Inr (Response [(''status'', JStr ''error''),
                             (''message'', JStr ''Payment verification failed''),
                             (''details'', JObj [(''status'', JStr ''failed'')])] 400)
          \<and> find_payment 1 w' = Some (payment1_initiated\<lparr>payment_status := ''failed''\<rparr>)
          \<and> bookings w' = bookings (world_of payment1_initiated)
          \<and> email_queue w' = email_queue (world_of payment1_initiated))"
proof -
  let ?e = "answering (Reply 200 (JObj [(''status'', JStr ''failed'')]))"
  let ?w = "world_of payment1_initiated"
  have h1: "find_payment 1 ?w = Some payment1_initiated"
    by (simp add: find_payment_def world_of_def payment1_initiated_def payment1_def)
  have h2: "truthy (transaction_id payment1_initiated)"
    by (simp add: payment1_initiated_def)
  have h3: "chapa ?e (GET (CHAPA_API_URL @ ''/transaction/verify/''
                @ str_json (transaction_id payment1_initiated)) (headers ?e))
              = Reply 200 (JObj [(''status'', JStr ''failed'')])"
    by (simp add: answering_def)
  have h4: "200 \<noteq> (200::nat) \<or> (\<exists>d. JObj [(''status'', JStr ''failed'')] = JObj d
              \<and> dict_get d ''status'' \<noteq> JStr ''success'')"
    by (simp add: dict_get_def)
  show ?thesis
    using h1 h2 verify_payment_gateway_failure [OF h1 h2 h3 h4, of local_request "Some 1"]
    by blast
qed

text \<open>
  C7. A Payment with a stored transaction identifier is verified while the gateway call
  raises a \<^verbatim>\<open>RequestException\<close>: the view answers 503, and no Payment row, no Booking
  row and no queued job changes.
\<close>

theorem verify_payment_transport_failure:
  assumes "find_payment pk w = Some p" and "truthy (transaction_id p)"
    and "chapa e (GET (CHAPA_API_URL @ ''/transaction/verify/'' @ str_json (transaction_id p))
                   (headers e)) = RequestException msg"
  shows "case PaymentViewSet_verify_payment (routed pk) rq arg e w of
           (r, w') \<Rightarrow>
             r = Inr (Response [(''status'', JStr ''error''),
                                (''message'', JStr ''Failed to verify payment''),
                                (''details'', JStr msg)] 503)
             \<and> payments w' = payments w \<and> bookings w' = bookings w
             \<and> email_queue w' = email_queue w"
  using assms
  by (simp add: PaymentViewSet_verify_payment_def get_object_routed send_def
      HTTP_503_SERVICE_UNAVAILABLE_def)

theorem verify_payment_transport_failure_witness:
  "find_payment 1 (world_of payment1_initiated) = Some payment1_initiated
   \<and> truthy (transaction_id payment1_initiated)
   \<and> (case PaymentViewSet_verify_payment (routed 1) local_request (Some 1)
             (answering (RequestException ''connection refused''))
             (world_of payment1_initiated) of
        (r, w') \<Rightarrow>
          r = Inr (Response [(''status'', JStr ''error''),
                             (''message'', JStr ''Failed to verify payment''),
                             (''details'', JStr ''connection refused'')] 503)
          \<and> payments w' = payments (world_of payment1_initiated)
          \<and> bookings w' = bookings (world_of payment1_initiated)
          \<and> email_queue w' = email_queue (world_of payment1_initiated))"
proof -
  let ?e = "answering (RequestException ''connection refused'')"
  let ?w = "world_of payment1_initiated"
  have h1: "find_payment 1 ?w = Some payment1_initiated"
    by (simp add: find_payment_def world_of_def payment1_initiated_def payment1_def)
  have h2: "truthy (transaction_id payment1_initiated)"
    by (simp add: payment1_initiated_def)
  have h3: "chapa ?e (GET (CHAPA_API_URL @ ''/transaction/verify/''
                @ str_json (transaction_id payment1_initiated)) (headers ?e))
              = RequestException ''connection refused''"
    by (simp add: answering_def)
  show ?thesis
    using h1 h2 verify_payment_transport_failure [OF h1 h2 h3, of local_request "Some 1"]
    by blast
qed

text \<open>
  C8. A Payment whose transaction identifier is absent (\<^verbatim>\<open>None\<close> or empty) is
  verified: whatever the gateway would answer, the view answers 400 and the world is
  the one it started in, so no request was sent and no row was written.
\<close>

theorem verify_payment_missing_transaction_id:
  assumes "find_payment pk w = Some p" and "\<not> truthy (transaction_id p)"
  shows "PaymentViewSet_verify_payment (routed pk) rq arg e w =
           (Inr (Response [(''status'', JStr ''error''),
                           (''message'', JStr ''No transaction ID found for this payment'')] 400),
            w)"
  using assms
  by (simp add: PaymentViewSet_verify_payment_def get_object_routed HTTP_400_BAD_REQUEST_def)

theorem verify_payment_missing_transaction_id_witness:
  "find_payment 1 (world_of payment1) = Some payment1
   \<and> \<not> truthy (transaction_id payment1)
   \<and> PaymentViewSet_verify_payment (routed 1) local_request (Some 1)
        (answering (Reply 200 (JObj [(''status'', JStr ''success'')]))) (world_of payment1) =
        (Inr (Response [(''status'', JStr ''error''),
                        (''message'', JStr ''No transaction ID found for this payment'')] 400),
         world_of payment1)"
proof -
  have h1: "find_payment 1 (world_of payment1) = Some payment1"
    by (simp add: find_payment_def world_of_def payment1_def)
  have h2: "\<not> truthy (transaction_id payment1)"
    by (simp add: payment1_def)
  show ?thesis
    using h1 h2 verify_payment_missing_transaction_id [OF h1 h2, of local_request "Some 1"
        "answering (Reply 200 (JObj [(''status'', JStr ''success'')]))"]
    by blast
qed

section \<open>initiate_payment\<close>






text \<open>
  C10. In every branch of \<^verbatim>\<open>PaymentViewSet.initiate_payment\<close>, whatever the gateway
  answers and however the view set was set up, the table of bookings is what it was.
  The same holds for \<^verbatim>\<open>BookingViewSet.initiate_payment\<close>, and creating a booking
  only appends the new row: of the operations, only \<^verbatim>\<open>verify_payment\<close> writes to an
  existing Booking.
\<close>

theorem initiate_payment_leaves_bookings:
  "bookings (snd (PaymentViewSet_initiate_payment self rq arg e w)) = bookings w
   \<and> bookings (snd (BookingViewSet_initiate_payment self rq arg ref e w)) = bookings w
   \<and> bookings (snd (perform_create s ref w)) = bookings w @ [fst (perform_create s ref w)]"
  by (simp add: payment_initiate_bookings booking_initiate_bookings perform_create_def
      serializer_save_def Payment_objects_create_def send_booking_confirmation_email_delay_def
      Let_def)

section \<open>Creating a booking\<close>

text \<open>
  C2. Creating a booking appends the Booking, appends exactly one Payment for it, with
  the booking's total price as amount, currency \<^verbatim>\<open>ETB\<close> and status \<^verbatim>\<open>pending\<close>,
  and appends one confirmation-email job to the queue.
\<close>

theorem perform_create_payment:
  "case perform_create s ref w of
     (b, w') \<Rightarrow>
       bookings w' = bookings w @ [b]
       \<and> payments w' = payments w @
           [\<lparr>payment_id = next_payment_id w, booking_fk = booking_id b,
             amount = total_price b, currency = ''ETB'', reference = ref,
             transaction_id = JNull, payment_url = JNull, payment_status = ''pending''\<rparr>]
       \<and> email_queue w' = email_queue w @
           [\<lparr>job_booking_id = booking_id b, job_user_email = email (user b),
             job_listing_title = title (listing b)\<rparr>]"
  by (simp add: perform_create_def serializer_save_def Payment_objects_create_def
      send_booking_confirmation_email_delay_def Let_def)

theorem perform_create_payment_witness:
  "fst (perform_create booking_form ''ref-1'' empty_world) = booking1
   \<and> payments (snd (perform_create booking_form ''ref-1'' empty_world)) = [payment1]
   \<and> email_queue (snd (perform_create booking_form ''ref-1'' empty_world)) =
       [\<lparr>job_booking_id = 1, job_user_email = ''abebe@example.com'',
         job_listing_title = ''Lalibela Lodge''\<rparr>]"
proof -
  have b: "fst (perform_create booking_form ''ref-1'' empty_world) = booking1"
    by (simp add: perform_create_def serializer_save_def Payment_objects_create_def Let_def
        booking_form_def empty_world_def booking1_def)
  show ?thesis
    using b perform_create_payment [where s = booking_form and ref = "''ref-1''" and w = empty_world]
    by (simp add: split_beta booking1_def payment1_def empty_world_def abebe_def lodge_def)
qed

section \<open>The pending Payment of a booking\<close>

text \<open>
  C3, as stated, fails: not every operation of the system keeps at most one pending
  Payment per Booking. The create handler that \<^verbatim>\<open>PaymentViewSet\<close> inherits inserts a
  Payment without looking for a pending one, so on a Booking that already has a pending
  Payment it leaves two.
\<close>

theorem inherited_create_adds_second_pending:
  "keys_ok (world_of payment1) \<and> one_pending (world_of payment1)
   \<and> map payment_id (pending_payments 1 (world_of payment1)) = [1]
   \<and> map payment_id (pending_payments 1
         (snd (PaymentViewSet_create
                 \<lparr>form_booking = 1, form_amount = ''400.00'', form_currency = ''ETB''\<rparr>
                 ''ref-2'' (world_of payment1)))) = [1, 2]
   \<and> \<not> one_pending
         (snd (PaymentViewSet_create
                 \<lparr>form_booking = 1, form_amount = ''400.00'', form_currency = ''ETB''\<rparr>
                 ''ref-2'' (world_of payment1)))"
  by (simp add: keys_ok_def one_pending_def pending_payments_def PaymentViewSet_create_def
      Payment_objects_create_def find_booking_def world_of_def payment1_def booking1_def Let_def)

text \<open>
  C3, amended. Each of the operations that \<^verbatim>\<open>views.py\<close> itself defines (the creation
  hook of a booking, the two \<^verbatim>\<open>initiate_payment\<close> actions and \<^verbatim>\<open>verify_payment\<close>),
  run on tables with sound keys where every Booking has at most one pending Payment,
  leaves tables of that kind. \<^verbatim>\<open>initiate_payment\<close> on an existing Booking leaves it
  with exactly one pending Payment (found, or created when there was none), and a second
  \<^verbatim>\<open>initiate_payment\<close> on the same Booking finds that Payment: the pending Payment
  has the same primary key and no row is added.
\<close>

theorem one_pending_payment_per_booking:
  assumes "keys_ok w" and "one_pending w"
  shows "keys_ok (run_defined e op w) \<and> one_pending (run_defined e op w)
         \<and> (\<forall>bid. length (pending_payments bid (run_defined e op w)) \<le> 1)
         \<and> (find_booking bk w \<noteq> None \<longrightarrow>
              length (pending_payments bk
                        (run_defined e1 (Booking_initiate_payment bk rq1 ref1) w)) = 1
              \<and> map payment_id (pending_payments bk
                        (run_defined e2 (Booking_initiate_payment bk rq2 ref2)
                           (run_defined e1 (Booking_initiate_payment bk rq1 ref1) w)))
                  = map payment_id (pending_payments bk
                        (run_defined e1 (Booking_initiate_payment bk rq1 ref1) w))
              \<and> map payment_id (payments
                        (run_defined e2 (Booking_initiate_payment bk rq2 ref2)
                           (run_defined e1 (Booking_initiate_payment bk rq1 ref1) w)))
                  = map payment_id (payments
                        (run_defined e1 (Booking_initiate_payment bk rq1 ref1) w)))"
proof -
  have step: "keys_ok (run_defined e op w) \<and> one_pending (run_defined e op w)"
    using assms by (rule run_defined_consistent)
  then have every: "\<forall>bid. length (pending_payments bid (run_defined e op w)) \<le> 1"
    by (simp add: one_pending_iff)
  have twice: "length (pending_payments bk
                        (run_defined e1 (Booking_initiate_payment bk rq1 ref1) w)) = 1
              \<and> map payment_id (pending_payments bk
                        (run_defined e2 (Booking_initiate_payment bk rq2 ref2)
                           (run_defined e1 (Booking_initiate_payment bk rq1 ref1) w)))
                  = map payment_id (pending_payments bk
                        (run_defined e1 (Booking_initiate_payment bk rq1 ref1) w))
              \<and> map payment_id (payments
                        (run_defined e2 (Booking_initiate_payment bk rq2 ref2)
                           (run_defined e1 (Booking_initiate_payment bk rq1 ref1) w)))
                  = map payment_id (payments
                        (run_defined e1 (Booking_initiate_payment bk rq1 ref1) w))"
    if "find_booking bk w = Some b" for b
    using assms that by (rule booking_initiate_twice)
  show ?thesis using step every twice by blast
qed

theorem one_pending_payment_per_booking_witness:
  "keys_ok (world_of payment1_completed) \<and> one_pending (world_of payment1_completed)
   \<and> find_booking 1 (world_of payment1_completed) \<noteq> None
   \<and> one_pending (run_defined (answering (RequestException ''down''))
         (Booking_initiate_payment 1 local_request ''ref-2'') (world_of payment1_completed))
   \<and> length (pending_payments 1
         (run_defined (answering (RequestException ''down''))
            (Booking_initiate_payment 1 local_request ''ref-2'') (world_of payment1_completed))) = 1
   \<and> map payment_id (payments
         (run_defined (answering (RequestException ''down''))
            (Booking_initiate_payment 1 local_request ''ref-2'') (world_of payment1_completed)))
       = [1, 2]
   \<and> map payment_id (payments
         (run_defined (answering (RequestException ''down''))
            (Booking_initiate_payment 1 local_request ''ref-3'')
            (run_defined (answering (RequestException ''down''))
               (Booking_initiate_payment 1 local_request ''ref-2'') (world_of payment1_completed))))
       = [1, 2]"
proof -
  let ?e = "answering (RequestException ''down'')"
  let ?w = "world_of payment1_completed"
  have k: "keys_ok ?w"
    by (simp add: keys_ok_def world_of_def payment1_completed_def payment1_initiated_def
        payment1_def booking1_def)
  have o: "one_pending ?w"
    by (simp add: one_pending_def pending_payments_def world_of_def payment1_completed_def
        payment1_initiated_def payment1_def)
  have fb: "find_booking 1 ?w \<noteq> None"
    by (simp add: find_booking_def world_of_def booking1_def)
  have run: "map payment_id (payments
               (run_defined ?e (Booking_initiate_payment 1 local_request ''ref-2'') ?w)) = [1, 2]"
    by (simp add: BookingViewSet_initiate_payment_def find_booking_def
        world_of_def booking1_def get_or_create_pending_def Payment_objects_get_def
        pending_payments_def payment1_completed_def payment1_initiated_def payment1_def
        Payment_objects_create_def Let_def PaymentViewSet_initiate_payment_def get_object_def
        routed_def)
  show ?thesis
    using k o fb run
      one_pending_payment_per_booking [OF k o, of ?e
        "Booking_initiate_payment 1 local_request ''ref-2''" 1 ?e local_request "''ref-2''"
        ?e local_request "''ref-3''"]
    by simp
qed

section \<open>The states of a Payment\<close>

text \<open>
  C6, as stated, fails: \<^verbatim>\<open>verify_payment\<close> does not look at the status it overwrites.
  Verifying a \<^verbatim>\<open>completed\<close> Payment against a gateway that reports failure leaves it
  \<^verbatim>\<open>failed\<close>, and verifying a \<^verbatim>\<open>failed\<close> Payment against a gateway that reports
  success leaves it \<^verbatim>\<open>completed\<close>.
\<close>

theorem verify_payment_overwrites_terminal_status:
  "payment_status payment1_completed = ''completed''
   \<and> find_payment 1 (world_of payment1_completed) = Some payment1_completed
   \<and> find_payment 1
        (run_defined (answering (Reply 200 (JObj [(''status'', JStr ''failed'')])))
           (Payment_verify_payment 1 local_request) (world_of payment1_completed))
       = Some payment1_failed
   \<and> payment_status payment1_failed = ''failed''
   \<and> find_payment 1 (world_of payment1_failed) = Some payment1_failed
   \<and> find_payment 1
        (run_defined (answering (Reply 200 (JObj [(''status'', JStr ''success'')])))
           (Payment_verify_payment 1 local_request) (world_of payment1_failed))
       = Some payment1_completed"
  by (simp add: PaymentViewSet_verify_payment_def get_object_def routed_def find_payment_def
      find_booking_def world_of_def payment1_completed_def payment1_failed_def
      payment1_initiated_def payment1_def booking1_def send_def answering_def dict_get_def
      verify_failure_def verify_success_def payment_booking_def payment_save_def booking_save_def
      send_booking_confirmation_email_delay_def Let_def)

text \<open>
  C6, amended. None of the operations that \<^verbatim>\<open>views.py\<close> itself defines (the creation
  hook of a booking, the two \<^verbatim>\<open>initiate_payment\<close> actions and \<^verbatim>\<open>verify_payment\<close>)
  takes a Payment out of the two states \<^verbatim>\<open>completed\<close> and \<^verbatim>\<open>failed\<close> taken together:
  a Payment that is completed or failed before such an operation is completed or failed
  after it, and each of them other than \<^verbatim>\<open>verify_payment\<close> leaves its status as it
  was.
\<close>

theorem terminal_status_stays_terminal:
  assumes "find_payment pk w = Some p" and "terminal (payment_status p)"
  shows "\<exists>p'. find_payment pk (run_defined e op w) = Some p'
           \<and> terminal (payment_status p')
           \<and> (\<not> is_verify op \<longrightarrow> payment_status p' = payment_status p)"
proof -
  obtain p' where p': "find_payment pk (run_defined e op w) = Some p'"
    and st: "payment_status p' = payment_status p
             \<or> (is_verify op \<and> terminal (payment_status p'))"
    using run_defined_status[OF assms(1)] by blast
  have "terminal (payment_status p')" using st assms(2) by auto
  moreover have "\<not> is_verify op \<longrightarrow> payment_status p' = payment_status p" using st by auto
  ultimately show ?thesis using p' by blast
qed

theorem terminal_status_stays_terminal_witness:
  "find_payment 1 (world_of payment1_completed) = Some payment1_completed
   \<and> terminal (payment_status payment1_completed)
   \<and> (\<exists>p'. find_payment 1
                (run_defined (answering (Reply 200 (JObj [(''status'', JStr ''failed'')])))
                   (Payment_verify_payment 1 local_request) (world_of payment1_completed))
               = Some p'
             \<and> terminal (payment_status p'))
   \<and> map payment_status (payments
         (run_defined (answering (Reply 200 (JObj [(''status'', JStr ''failed'')])))
            (Payment_verify_payment 1 local_request) (world_of payment1_completed)))
       = [''failed'']
   \<and> (\<exists>p'. find_payment 1
                (run_defined (answering (Reply 200 (JObj [(''status'', JStr ''success''),
                     (''data'', JObj [(''transaction_id'', JStr ''tx_999''),
                                      (''checkout_url'', JStr ''https://pay.example/tx_999'')])])))
                   (Payment_initiate_payment 1 local_request) (world_of payment1_completed))
               = Some p'
             \<and> terminal (payment_status p')
             \<and> payment_status p' = payment_status payment1_completed)
   \<and> map transaction_id (payments
         (run_defined (answering (Reply 200 (JObj [(''status'', JStr ''success''),
              (''data'', JObj [(''transaction_id'', JStr ''tx_999''),
                               (''checkout_url'', JStr ''https://pay.example/tx_999'')])])))
            (Payment_initiate_payment 1 local_request) (world_of payment1_completed)))
       = [JStr ''tx_999'']"
proof -
  let ?w = "world_of payment1_completed"
  let ?ev = "answering (Reply 200 (JObj [(''status'', JStr ''failed'')]))"
  let ?ei = "answering (Reply 200 (JObj [(''status'', JStr ''success''),
                (''data'', JObj [(''transaction_id'', JStr ''tx_999''),
                                 (''checkout_url'', JStr ''https://pay.example/tx_999'')])]))"
  have h1: "find_payment 1 ?w = Some payment1_completed"
    by (simp add: find_payment_def world_of_def payment1_completed_def payment1_initiated_def
        payment1_def)
  have h2: "terminal (payment_status payment1_completed)"
    by (simp add: payment1_completed_def)
  have v: "\<exists>p'. find_payment 1 (run_defined ?ev (Payment_verify_payment 1 local_request) ?w)
                   = Some p' \<and> terminal (payment_status p')"
    using terminal_status_stays_terminal [OF h1 h2, of ?ev "Payment_verify_payment 1 local_request"]
    by blast
  have i: "\<exists>p'. find_payment 1 (run_defined ?ei (Payment_initiate_payment 1 local_request) ?w)
                   = Some p' \<and> terminal (payment_status p')
                 \<and> payment_status p' = payment_status payment1_completed"
    using terminal_status_stays_terminal [OF h1 h2, of ?ei "Payment_initiate_payment 1 local_request"]
    by simp
  have vrun: "map payment_status (payments
                (run_defined ?ev (Payment_verify_payment 1 local_request) ?w)) = [''failed'']"
    by (simp add: PaymentViewSet_verify_payment_def get_object_def routed_def find_payment_def
        world_of_def payment1_completed_def payment1_initiated_def payment1_def send_def
        answering_def dict_get_def verify_failure_def payment_save_def Let_def)
  have irun: "map transaction_id (payments
                (run_defined ?ei (Payment_initiate_payment 1 local_request) ?w)) = [JStr ''tx_999'']"
    by (simp add: PaymentViewSet_initiate_payment_def get_object_def routed_def find_payment_def
        find_booking_def payment_booking_def world_of_def payment1_completed_def
        payment1_initiated_def payment1_def booking1_def send_def answering_def dict_get_def
        initiate_success_def payment_save_def Let_def)
  from h1 h2 v vrun i irun show ?thesis by blast
qed

section \<open>The callback URL\<close>

text \<open>
  C9. The callback URL that \<^verbatim>\<open>initiate_payment\<close> sends for Payment 1 is
  \<^verbatim>\<open>http://localhost:8000/api/payments/1/verify/\<close>. With the app included under
  \<^verbatim>\<open>api/\<close>, that path resolves to no route at all, while \<^verbatim>\<open>verify_payment\<close> is
  served at \<^verbatim>\<open>api/payments/1/verify_payment/\<close>. Under no prefix and for no Payment
  does the path of the callback URL resolve to a \<^verbatim>\<open>verify_payment\<close> action.
\<close>

theorem callback_url_misses_verify_route:
  "map_of (payload local_request payment1 booking1) ''callback_url''
     = Some ''http://localhost:8000/api/payments/1/verify/''
   \<and> callback_url local_request payment1 = ''http://localhost:8000/'' @ callback_path payment1
   \<and> resolve ''api/'' (callback_path payment1) = None
   \<and> resolve ''api/'' ''api/payments/1/verify_payment/''
       = Some (Extra_action PaymentViewSet ''verify_payment'' ''1'')
   \<and> resolve mount (callback_path p) \<noteq> Some (Extra_action v ''verify_payment'' k)"
proof -
  have here: "map_of (payload local_request payment1 booking1) ''callback_url''
     = Some ''http://localhost:8000/api/payments/1/verify/''
   \<and> callback_url local_request payment1 = ''http://localhost:8000/'' @ callback_path payment1
   \<and> resolve ''api/'' (callback_path payment1) = None
   \<and> resolve ''api/'' ''api/payments/1/verify_payment/''
       = Some (Extra_action PaymentViewSet ''verify_payment'' ''1'')"
    by code_simp
  have everywhere: "resolve mount (callback_path p) \<noteq> Some (Extra_action v ''verify_payment'' k)"
    by (rule callback_path_never_verify_route)
  from here everywhere show ?thesis by blast
qed

end
